theory Spec2Isabelle
  imports Main
begin

section \<open>Data model\<close>

text \<open>
  The controller of \<^verbatim>\<open>controllers/appbundle_controller.go\<close> works on three kinds of
  objects: AppBundles (read and updated through the controller-runtime client),
  PlacementDecisions (read through a lister) and ManifestWorks (read and written through the
  work client). Go maps are reference values: two structs may share one map, and a write
  through one is seen through the other. Label and annotation maps therefore live in a heap
  of map objects, and an in-memory object holds references into it; \<open>None\<close> is the nil map.
  An object held by a store is a serialised document and holds its maps by value.
\<close>

type_synonym labelmap = "string \<rightharpoonup> string"
type_synonym addr = nat
type_synonym mapref = "addr option"
type_synonym heap = "labelmap list"

text \<open>\<^verbatim>\<open>workapiv1.ManifestWorkSpec\<close>: the workload, a sequence of raw manifests.\<close>

record ManifestWorkSpec =
  Manifests :: "string list"

text \<open>
  AppBundle and ManifestWork both embed \<^verbatim>\<open>TypeMeta\<close> and \<^verbatim>\<open>ObjectMeta\<close> and both carry a
  \<open>Spec\<close> of type \<^verbatim>\<open>workapiv1.ManifestWorkSpec\<close> (\<^verbatim>\<open>generateManifest\<close> assigns
  \<^verbatim>\<open>bundle.Spec\<close> to the ManifestWork's \<open>Spec\<close>). One record serves both; the parameter
  \<open>'m\<close> is the representation of a map: a reference in memory, a value in a store.
  \<open>DeletionTimestamp\<close> is a pointer to a time: \<open>None\<close> is nil, \<open>Some 0\<close> the zero time.
\<close>

record 'm Object =
  Kind :: string
  APIVersion :: string
  Name :: string
  Namespace :: string
  UID :: string
  Labels :: 'm
  Annotations :: 'm
  Finalizers :: "string list"
  DeletionTimestamp :: "nat option"
  Spec :: ManifestWorkSpec

type_synonym AppBundle = "mapref Object"
type_synonym ManifestWork = "mapref Object"
type_synonym StoredObject = "labelmap option Object"

record ClusterDecision =
  ClusterName :: string
  Reason :: string

text \<open>A PlacementDecision is only read; its labels are held by value.\<close>

record PlacementDecision =
  pdName :: string
  pdNamespace :: string
  pdLabels :: labelmap
  pdDecisions :: "ClusterDecision list"

text \<open>
  Go error values. \<open>Errorf\<close> is an error made by \<^verbatim>\<open>fmt.Errorf\<close>; the others are the
  status errors of the API machinery that the controller tells apart, and
  \<open>TransportFailure\<close> any other store error.
\<close>

datatype error = NotFound | AlreadyExists | Conflict | BadRequest | Errorf string | TransportFailure

text \<open>A call either returns a Go error or panics.\<close>

datatype failure = Panic | Err error

datatype call =
    BGet "string \<times> string"
  | BUpdate "string \<times> string"
  | PDList string "(string \<times> string) list"
  | WGet string string
  | WCreate string string
  | WUpdate string string
  | WDelete string string
  | WList string "(string \<times> string) list"

datatype logline =
    LogNoPlacementLabel string
  | LogPlacementLabelFound string string
  | LogNamespace string
  | LogFound "ClusterDecision list"
  | LogGenerating string
  | LogApplying string

text \<open>
  The state a reconciliation runs in: the AppBundle store keyed by (namespace, name), the
  PlacementDecisions of the lister's cache in iteration order, the ManifestWorks of all
  cluster namespaces, and the in-memory heap of maps. Store calls can fail for reasons the
  controller does not control: \<open>faults\<close> gives, for each successive store call, the error it
  fails with (\<open>None\<close>, or an exhausted list, lets the call through). \<open>calls\<close> records every
  store call with its outcome and \<open>klog\<close> every log line. A reconciliation runs alone:
  what another writer does between two calls shows here only as a failed call. Metadata
  that a store assigns (resource version, creation time) is left out.
\<close>

record world =
  bundles :: "string \<times> string \<rightharpoonup> StoredObject"
  placementDecisions :: "PlacementDecision list"
  works :: "StoredObject list"
  faults :: "error option list"
  heap :: heap
  calls :: "(call \<times> error option) list"
  klog :: "logline list"

definition PlacementLabel :: string where
  "PlacementLabel = ''cluster.open-cluster-management.io/placement''"

definition OwnedLabel :: string where
  "OwnedLabel = ''cluster.open-cluster-management.io/owned-by''"

section \<open>Maps in memory, documents in stores\<close>

definition allocMap :: "heap \<Rightarrow> labelmap option \<Rightarrow> mapref \<times> heap" where
  "allocMap h mo = (case mo of None \<Rightarrow> (None, h) | Some m \<Rightarrow> (Some (length h), h @ [m]))"

definition readMap :: "heap \<Rightarrow> mapref \<Rightarrow> labelmap option" where
  "readMap h r = (case r of None \<Rightarrow> None | Some a \<Rightarrow> Some (h ! a))"

text \<open>Decoding a document allocates its maps; an absent map decodes to nil.\<close>

definition decode :: "heap \<Rightarrow> StoredObject \<Rightarrow> mapref Object \<times> heap" where
  "decode h so =
     (case allocMap h (Labels so) of (l, h1) \<Rightarrow>
      case allocMap h1 (Annotations so) of (a, h2) \<Rightarrow>
        (\<lparr>Kind = Kind so, APIVersion = APIVersion so, Name = Name so,
          Namespace = Namespace so, UID = UID so, Labels = l, Annotations = a,
          Finalizers = Finalizers so, DeletionTimestamp = DeletionTimestamp so,
          Spec = Spec so\<rparr>, h2))"

definition encode :: "heap \<Rightarrow> mapref Object \<Rightarrow> StoredObject" where
  "encode h ob =
     \<lparr>Kind = Kind ob, APIVersion = APIVersion ob, Name = Name ob,
      Namespace = Namespace ob, UID = UID ob, Labels = readMap h (Labels ob),
      Annotations = readMap h (Annotations ob), Finalizers = Finalizers ob,
      DeletionTimestamp = DeletionTimestamp ob, Spec = Spec ob\<rparr>"

text \<open>\<^verbatim>\<open>DeepCopy\<close>: every map of the object is copied into a new map.\<close>

definition DeepCopy :: "heap \<Rightarrow> mapref Object \<Rightarrow> mapref Object \<times> heap" where
  "DeepCopy h ob =
     (case allocMap h (readMap h (Labels ob)) of (l, h1) \<Rightarrow>
      case allocMap h1 (readMap h1 (Annotations ob)) of (a, h2) \<Rightarrow>
        (ob\<lparr>Labels := l, Annotations := a\<rparr>, h2))"

text \<open>\<^verbatim>\<open>metav1.Time.IsZero\<close>: a nil pointer or the zero time.\<close>

definition IsZero :: "nat option \<Rightarrow> bool" where
  "IsZero t = (case t of None \<Rightarrow> True | Some n \<Rightarrow> n = 0)"

section \<open>The stores\<close>

definition nextFault :: "world \<Rightarrow> error option \<times> world" where
  "nextFault w = (case faults w of [] \<Rightarrow> (None, w) | f # fs \<Rightarrow> (f, w\<lparr>faults := fs\<rparr>))"

definition record_call :: "call \<Rightarrow> error option \<Rightarrow> world \<Rightarrow> world" where
  "record_call c r w = w\<lparr>calls := calls w @ [(c, r)]\<rparr>"

definition klogInfof :: "logline \<Rightarrow> world \<Rightarrow> world" where
  "klogInfof l w = w\<lparr>klog := klog w @ [l]\<rparr>"

subsection \<open>The controller-runtime client on AppBundles\<close>

text \<open>\<^verbatim>\<open>r.Get(ctx, key, &bundle)\<close>\<close>

definition clientGet :: "string \<times> string \<Rightarrow> world \<Rightarrow> (error + AppBundle) \<times> world" where
  "clientGet key w =
     (case nextFault w of
        (Some e, w1) \<Rightarrow> (Inl e, record_call (BGet key) (Some e) w1)
      | (None, w1) \<Rightarrow>
          (case bundles w1 key of
             None \<Rightarrow> (Inl NotFound, record_call (BGet key) (Some NotFound) w1)
           | Some sb \<Rightarrow>
               (case decode (heap w1) sb of (b, h) \<Rightarrow>
                  (Inr b, record_call (BGet key) None (w1\<lparr>heap := h\<rparr>)))))"

text \<open>
  \<^verbatim>\<open>r.Update(ctx, b, &client.UpdateOptions{})\<close>. The store erases an object whose deletion
  was requested as soon as an update leaves it without finalizers.
\<close>

definition clientUpdate :: "AppBundle \<Rightarrow> world \<Rightarrow> error option \<times> world" where
  "clientUpdate b w =
     (let key = (Namespace b, Name b) in
      case nextFault w of
        (Some e, w1) \<Rightarrow> (Some e, record_call (BUpdate key) (Some e) w1)
      | (None, w1) \<Rightarrow>
          (case bundles w1 key of
             None \<Rightarrow> (Some NotFound, record_call (BUpdate key) (Some NotFound) w1)
           | Some old \<Rightarrow>
               (let sb = encode (heap w1) b in
                (None, record_call (BUpdate key) None
                   (w1\<lparr>bundles :=
                      (if \<not> IsZero (DeletionTimestamp sb) \<and> Finalizers sb = []
                       then (bundles w1)(key := None)
                       else (bundles w1)(key \<mapsto> sb))\<rparr>)))))"

subsection \<open>Label selectors and the PlacementDecision lister\<close>

text \<open>
  A selector is a list of equality requirements (key, value); the controller builds no
  other kind. \<^verbatim>\<open>labels.NewRequirement(key, selection.Equals, []string{value})\<close> returns
  the requirement together with a validation error that the controller discards. The values
  the controller passes are a label value and a UID read from a store, which are valid
  label values; the validation is not modelled.
\<close>

type_synonym selector = "(string \<times> string) list"

definition NewRequirement :: "string \<Rightarrow> string \<Rightarrow> string \<times> string" where
  "NewRequirement key val = (key, val)"

definition NewSelector :: selector where
  "NewSelector = []"

definition Add :: "selector \<Rightarrow> string \<times> string \<Rightarrow> selector" where
  "Add sel req = sel @ [req]"

definition Matches :: "selector \<Rightarrow> labelmap \<Rightarrow> bool" where
  "Matches sel ls = list_all (\<lambda>(k, v). ls k = Some v) sel"

text \<open>The empty namespace is \<^verbatim>\<open>metav1.NamespaceAll\<close>.\<close>

definition inNamespace :: "string \<Rightarrow> string \<Rightarrow> bool" where
  "inNamespace ns n = (ns = [] \<or> n = ns)"

text \<open>\<^verbatim>\<open>r.PlacementDecisionLister.PlacementDecisions(ns).List(selector)\<close>\<close>

definition listPlacementDecisions ::
  "string \<Rightarrow> selector \<Rightarrow> world \<Rightarrow> (error + PlacementDecision list) \<times> world" where
  "listPlacementDecisions ns sel w =
     (case nextFault w of
        (Some e, w1) \<Rightarrow> (Inl e, record_call (PDList ns sel) (Some e) w1)
      | (None, w1) \<Rightarrow>
          (Inr (filter (\<lambda>d. inNamespace ns (pdNamespace d) \<and> Matches sel (pdLabels d))
                  (placementDecisions w1)),
           record_call (PDList ns sel) None w1))"

subsection \<open>The work client on ManifestWorks\<close>

definition hasKey :: "string \<Rightarrow> string \<Rightarrow> 'm Object \<Rightarrow> bool" where
  "hasKey ns n ob = (Namespace ob = ns \<and> Name ob = n)"

text \<open>\<^verbatim>\<open>ManifestWorks(ns).Get(ctx, name, v1.GetOptions{})\<close>\<close>

definition workGet :: "string \<Rightarrow> string \<Rightarrow> world \<Rightarrow> (error + ManifestWork) \<times> world" where
  "workGet ns n w =
     (case nextFault w of
        (Some e, w1) \<Rightarrow> (Inl e, record_call (WGet ns n) (Some e) w1)
      | (None, w1) \<Rightarrow>
          (case find (hasKey ns n) (works w1) of
             None \<Rightarrow> (Inl NotFound, record_call (WGet ns n) (Some NotFound) w1)
           | Some sw \<Rightarrow>
               (case decode (heap w1) sw of (m, h) \<Rightarrow>
                  (Inr m, record_call (WGet ns n) None (w1\<lparr>heap := h\<rparr>)))))"

text \<open>
  \<^verbatim>\<open>ManifestWorks(ns).Create(ctx, manifest, v1.CreateOptions{})\<close>. The store refuses an
  object whose namespace is not the one of the request.
\<close>

definition workCreate :: "string \<Rightarrow> ManifestWork \<Rightarrow> world \<Rightarrow> error option \<times> world" where
  "workCreate ns m w =
     (case nextFault w of
        (Some e, w1) \<Rightarrow> (Some e, record_call (WCreate ns (Name m)) (Some e) w1)
      | (None, w1) \<Rightarrow>
          (if Namespace m \<noteq> ns
           then (Some BadRequest, record_call (WCreate ns (Name m)) (Some BadRequest) w1)
           else
             (case find (hasKey ns (Name m)) (works w1) of
                Some sw \<Rightarrow>
                  (Some AlreadyExists, record_call (WCreate ns (Name m)) (Some AlreadyExists) w1)
              | None \<Rightarrow>
                  (None, record_call (WCreate ns (Name m)) None
                     (w1\<lparr>works := works w1 @ [encode (heap w1) m]\<rparr>)))))"

text \<open>\<^verbatim>\<open>ManifestWorks(ns).Update(ctx, newManifest, v1.UpdateOptions{})\<close>\<close>

definition workUpdate :: "string \<Rightarrow> ManifestWork \<Rightarrow> world \<Rightarrow> error option \<times> world" where
  "workUpdate ns m w =
     (case nextFault w of
        (Some e, w1) \<Rightarrow> (Some e, record_call (WUpdate ns (Name m)) (Some e) w1)
      | (None, w1) \<Rightarrow>
          (if Namespace m \<noteq> ns
           then (Some BadRequest, record_call (WUpdate ns (Name m)) (Some BadRequest) w1)
           else
             (case find (hasKey ns (Name m)) (works w1) of
                None \<Rightarrow> (Some NotFound, record_call (WUpdate ns (Name m)) (Some NotFound) w1)
              | Some sw \<Rightarrow>
                  (None, record_call (WUpdate ns (Name m)) None
                     (w1\<lparr>works :=
                        map (\<lambda>x. if hasKey ns (Name m) x then encode (heap w1) m else x)
                          (works w1)\<rparr>)))))"

text \<open>\<^verbatim>\<open>ManifestWorks(ns).Delete(ctx, name, v1.DeleteOptions{})\<close>\<close>

definition workDelete :: "string \<Rightarrow> string \<Rightarrow> world \<Rightarrow> error option \<times> world" where
  "workDelete ns n w =
     (case nextFault w of
        (Some e, w1) \<Rightarrow> (Some e, record_call (WDelete ns n) (Some e) w1)
      | (None, w1) \<Rightarrow>
          (case find (hasKey ns n) (works w1) of
             None \<Rightarrow> (Some NotFound, record_call (WDelete ns n) (Some NotFound) w1)
           | Some sw \<Rightarrow>
               (None, record_call (WDelete ns n) None
                  (w1\<lparr>works := filter (\<lambda>x. \<not> hasKey ns n x) (works w1)\<rparr>))))"

text \<open>
  \<^verbatim>\<open>ManifestWorks(ns).List(ctx, opts)\<close>, where the label selector of \<open>opts\<close> is the
  selector \<open>sel\<close>; \<^verbatim>\<open>v1.ListOptions{}\<close> has the empty selector. The caller reads only the
  namespace and the name of the items, which are returned as the store holds them.
\<close>

definition stored_labels :: "StoredObject \<Rightarrow> labelmap" where
  "stored_labels so = (case Labels so of None \<Rightarrow> Map.empty | Some m \<Rightarrow> m)"

definition workList :: "string \<Rightarrow> selector \<Rightarrow> world \<Rightarrow> (error + StoredObject list) \<times> world" where
  "workList ns sel w =
     (case nextFault w of
        (Some e, w1) \<Rightarrow> (Inl e, record_call (WList ns sel) (Some e) w1)
      | (None, w1) \<Rightarrow>
          (Inr (filter (\<lambda>x. inNamespace ns (Namespace x) \<and> Matches sel (stored_labels x))
                  (works w1)),
           record_call (WList ns sel) None w1))"

section \<open>The controller\<close>

text \<open>\<^verbatim>\<open>getPlacementLabel\<close>: reading a key of the nil map finds nothing.\<close>

definition getPlacementLabel :: "heap \<Rightarrow> AppBundle \<Rightarrow> string option" where
  "getPlacementLabel h bundle =
     (case Labels bundle of None \<Rightarrow> None | Some a \<Rightarrow> (h ! a) PlacementLabel)"

text \<open>
  \<^verbatim>\<open>generateManifest\<close>. The manifest's \<open>Labels\<close> is the bundle's map itself, not a copy, so
  the assignment of the ownership label writes into the bundle's map; a write into the
  nil map panics. \<^verbatim>\<open>workapiv1.GroupVersion.Version\<close> is \<^verbatim>\<open>v1\<close>.
\<close>

definition generateManifest :: "heap \<Rightarrow> AppBundle \<Rightarrow> string \<Rightarrow> failure + ManifestWork \<times> heap" where
  "generateManifest h bundle namespace =
     (let manifest =
            \<lparr>Kind = ''ManifestWork'', APIVersion = ''v1'', Name = Name bundle,
             Namespace = Namespace bundle, UID = [], Labels = Labels bundle,
             Annotations = Annotations bundle, Finalizers = [],
             DeletionTimestamp = None, Spec = Spec bundle\<rparr>;
          manifest = manifest\<lparr>Namespace := namespace\<rparr>
      in case Labels manifest of
           None \<Rightarrow> Inl Panic
         | Some a \<Rightarrow> Inr (manifest, h[a := (h ! a)(OwnedLabel \<mapsto> UID bundle)]))"

text \<open>
  A loop body either falls through to the next iteration or returns from the function.
\<close>

datatype 'r ctl = Continue | Return 'r

text \<open>The body of the loop of \<^verbatim>\<open>scheduleBundle\<close> for one cluster decision.\<close>

definition scheduleBundle_body ::
  "AppBundle \<Rightarrow> ClusterDecision \<Rightarrow> world \<Rightarrow> failure option ctl \<times> world" where
  "scheduleBundle_body bundle dec w =
     (let w1 = klogInfof (LogGenerating (ClusterName dec)) w in
      case generateManifest (heap w1) bundle (ClusterName dec) of
        Inl p \<Rightarrow> (Return (Some p), w1)
      | Inr (manifest, h) \<Rightarrow>
          (let w2 = klogInfof (LogApplying (ClusterName dec)) (w1\<lparr>heap := h\<rparr>) in
           case workGet (ClusterName dec) (Name manifest) w2 of
             (Inl err, w3) \<Rightarrow>
               (if err = NotFound
                then (case workCreate (ClusterName dec) manifest w3 of
                        (err', w4) \<Rightarrow> (Return (map_option Err err'), w4))
                else (Return (Some (Err err)), w3))
           | (Inr existingManifest, w3) \<Rightarrow>
               (case DeepCopy (heap w3) existingManifest of
                  (newManifest, h') \<Rightarrow>
                    (let newManifest = newManifest\<lparr>Spec := Spec manifest,
                           Labels := Labels manifest, Annotations := Annotations manifest\<rparr>
                     in case workUpdate (ClusterName dec) newManifest (w3\<lparr>heap := h'\<rparr>) of
                          (Some err, w4) \<Rightarrow> (Return (Some (Err err)), w4)
                        | (None, w4) \<Rightarrow> (Continue, w4)))))"

fun scheduleBundle_loop ::
  "AppBundle \<Rightarrow> ClusterDecision list \<Rightarrow> world \<Rightarrow> failure option \<times> world" where
  "scheduleBundle_loop bundle [] w = (None, w)"
| "scheduleBundle_loop bundle (dec # decs) w =
     (case scheduleBundle_body bundle dec w of
        (Return r, w') \<Rightarrow> (r, w')
      | (Continue, w') \<Rightarrow> scheduleBundle_loop bundle decs w')"

definition scheduleBundle ::
  "AppBundle \<Rightarrow> PlacementDecision \<Rightarrow> world \<Rightarrow> failure option \<times> world" where
  "scheduleBundle bundle decision w = scheduleBundle_loop bundle (pdDecisions decision) w"

text \<open>The loop of \<^verbatim>\<open>deleteAllChildManifests\<close> over the listed items.\<close>

fun deleteLoop :: "StoredObject list \<Rightarrow> world \<Rightarrow> error option \<times> world" where
  "deleteLoop [] w = (None, w)"
| "deleteLoop (m # ms) w =
     (case workDelete (Namespace m) (Name m) w of
        (Some err, w') \<Rightarrow> (Some err, w')
      | (None, w') \<Rightarrow> deleteLoop ms w')"

text \<open>
  \<^verbatim>\<open>deleteAllChildManifests\<close>. The selector on the ownership label is built and then not
  used: the list call is made on all namespaces with \<^verbatim>\<open>v1.ListOptions{}\<close>.
\<close>

definition deleteAllChildManifests :: "AppBundle \<Rightarrow> world \<Rightarrow> error option \<times> world" where
  "deleteAllChildManifests bundle w =
     (let req = NewRequirement OwnedLabel (UID bundle);
          selector = Add NewSelector req
      in case workList [] [] w of
           (Inl err, w1) \<Rightarrow> (Some err, w1)
         | (Inr items, w1) \<Rightarrow> deleteLoop items w1)"

text \<open>\<^verbatim>\<open>getPlacementDecision\<close>\<close>

definition getPlacementDecision ::
  "string \<Rightarrow> string \<Rightarrow> world \<Rightarrow> (error + PlacementDecision) \<times> world" where
  "getPlacementDecision placementName placementNamespace w =
     (let w0 = klogInfof (LogNamespace placementNamespace) w;
          pReq = NewRequirement PlacementLabel placementName;
          selector = Add NewSelector pReq
      in case listPlacementDecisions placementNamespace selector w0 of
           (Inl err, w1) \<Rightarrow> (Inl err, w1)
         | (Inr pList, w1) \<Rightarrow>
             (if length pList \<ge> 1 then (Inr (pList ! 0), w1)
              else (Inl (Errorf (''Could not find placement decision for placement ''
                                   @ placementName @ '' '')), w1)))"

text \<open>
  Modelled from the spec: \<^verbatim>\<open>containsString\<close> is called by \<^verbatim>\<open>Reconcile\<close> and declared
  outside the source file. The spec speaks of the finalizer token being present in or
  absent from the Bundle's finalizers, which is membership in the slice.
\<close>

definition containsString :: "string list \<Rightarrow> string \<Rightarrow> bool" where
  "containsString slice s = (s \<in> set slice)"

text \<open>\<^verbatim>\<open>controllerutil.AddFinalizer\<close> appends the token unless the object has it.\<close>

definition AddFinalizer :: "AppBundle \<Rightarrow> string \<Rightarrow> AppBundle" where
  "AddFinalizer ob finalizer =
     (if finalizer \<in> set (Finalizers ob) then ob
      else ob\<lparr>Finalizers := Finalizers ob @ [finalizer]\<rparr>)"

text \<open>\<^verbatim>\<open>controllerutil.RemoveFinalizer\<close> drops every occurrence of the token.\<close>

definition RemoveFinalizer :: "AppBundle \<Rightarrow> string \<Rightarrow> AppBundle" where
  "RemoveFinalizer ob finalizer =
     ob\<lparr>Finalizers := filter (\<lambda>f. f \<noteq> finalizer) (Finalizers ob)\<rparr>"

text \<open>\<^verbatim>\<open>client.IgnoreNotFound\<close>\<close>

definition IgnoreNotFound :: "error \<Rightarrow> failure option" where
  "IgnoreNotFound err = (if err = NotFound then None else Some (Err err))"

text \<open>
  Lines 114 to 135 of \<^verbatim>\<open>Reconcile\<close>, reached when deletion is not requested: placement
  label, placement decision, and scheduling of a bundle that has manifests. The result is
  the error returned with \<^verbatim>\<open>ctrl.Result{}\<close>; \<open>None\<close> is the nil error.
\<close>

definition reconcilePlacement ::
  "AppBundle \<Rightarrow> string \<times> string \<Rightarrow> world \<Rightarrow> failure option \<times> world" where
  "reconcilePlacement bundle req w =
     (case getPlacementLabel (heap w) bundle of
        None \<Rightarrow> (None, klogInfof (LogNoPlacementLabel (Name bundle)) w)
      | Some pLabel \<Rightarrow>
          (let w1 = klogInfof (LogPlacementLabelFound pLabel (Name bundle)) w in
           case getPlacementDecision pLabel (fst req) w1 of
             (Inl err, w2) \<Rightarrow> (Some (Err err), w2)
           | (Inr placementDec, w2) \<Rightarrow>
               (let w3 = klogInfof (LogFound (pdDecisions placementDec)) w2 in
                if length (Manifests (Spec bundle)) > 0
                then (case scheduleBundle bundle placementDec w3 of
                        (Some err, w4) \<Rightarrow> (Some err, w4)
                      | (None, w4) \<Rightarrow> (None, w4))
                else (None, w3))))"

text \<open>
  \<^verbatim>\<open>Reconcile\<close> for the request \<open>req\<close> = (namespace, name). Two names it uses are declared
  outside the source file and are parameters here: the finalizer token \<open>DeployFinalizer\<close>
  and the function \<open>IgnoreConflict\<close> from errors to errors (\<open>None\<close> is nil), applied to the
  error of the update that removes the finalizer. The object \<open>b\<close> that an update sends is not read after the update.
\<close>

definition Reconcile ::
  "string \<Rightarrow> (error \<Rightarrow> error option) \<Rightarrow> string \<times> string \<Rightarrow> world \<Rightarrow> failure option \<times> world"
  where
  "Reconcile DeployFinalizer IgnoreConflict req w =
     (case clientGet req w of
        (Inl err, w1) \<Rightarrow> (IgnoreNotFound err, w1)
      | (Inr bundle, w1) \<Rightarrow>
          (case DeepCopy (heap w1) bundle of
             (b, h) \<Rightarrow>
               (let w2 = w1\<lparr>heap := h\<rparr> in
                if IsZero (DeletionTimestamp bundle)
                then
                  (if \<not> containsString (Finalizers b) DeployFinalizer
                   then (case clientUpdate (AddFinalizer b DeployFinalizer) w2 of
                           (Some err, w3) \<Rightarrow> (Some (Err err), w3)
                         | (None, w3) \<Rightarrow> reconcilePlacement bundle req w3)
                   else reconcilePlacement bundle req w2)
                else
                  (if containsString (Finalizers b) DeployFinalizer
                   then (case deleteAllChildManifests b w2 of
                           (Some err, w3) \<Rightarrow> (Some (Err err), w3)
                         | (None, w3) \<Rightarrow>
                             (case clientUpdate (RemoveFinalizer b DeployFinalizer) w3 of
                                (Some err, w4) \<Rightarrow> (map_option Err (IgnoreConflict err), w4)
                              | (None, w4) \<Rightarrow> (None, w4)))
                   else (None, w2)))))"

text \<open>
  Modelled from the spec: \<^verbatim>\<open>IgnoreConflict\<close> is called by \<^verbatim>\<open>Reconcile\<close> and declared
  outside the source file. The spec says of a Conflict on the finalizer update that it is
  surfaced to the caller so that the event is redelivered, and that every failure is
  returned upward.
\<close>

definition IgnoreConflict_spec :: "error \<Rightarrow> error option" where
  "IgnoreConflict_spec err = Some err"

section \<open>Auxiliary definitions for the statements\<close>

text \<open>The error of a result, \<open>None\<close> when the call returned a value.\<close>

definition errOf :: "'e + 'a \<Rightarrow> 'e option" where
  "errOf r = (case r of Inl e \<Rightarrow> Some e | Inr x \<Rightarrow> None)"

text \<open>The store calls that write a ManifestWork into the work store.\<close>

fun writesWork :: "call \<Rightarrow> bool" where
  "writesWork (WCreate ns n) = True"
| "writesWork (WUpdate ns n) = True"
| "writesWork c = False"

text \<open>
  A step from \<open>w\<close> to \<open>w'\<close> that adds no ManifestWork and makes no call that writes one.
\<close>

definition quiet :: "world \<Rightarrow> world \<Rightarrow> bool" where
  "quiet w w' =
     (set (works w') \<subseteq> set (works w)
      \<and> (\<exists>evs. calls w' = calls w @ evs \<and> list_all (\<lambda>ev. \<not> writesWork (fst ev)) evs))"

text \<open>
  The calls of \<^verbatim>\<open>scheduleBundle\<close> on a target whose ManifestWork named \<open>n\<close> is read and
  then updated, both without error.
\<close>

definition converged :: "string \<Rightarrow> ClusterDecision \<Rightarrow> (call \<times> error option) list" where
  "converged n d = [(WGet (ClusterName d) n, None), (WUpdate (ClusterName d) n, None)]"

text \<open>
  The calls \<open>evs\<close> of \<^verbatim>\<open>scheduleBundle\<close> on the target cluster \<open>c\<close> at which it returns, with
  the result \<open>r\<close>: a read error, a create after the read found nothing, or an update error.
\<close>

definition returnsAt ::
  "string \<Rightarrow> string \<Rightarrow> (call \<times> error option) list \<Rightarrow> failure option \<Rightarrow> bool" where
  "returnsAt n c evs r =
     ((\<exists>e. e \<noteq> NotFound \<and> evs = [(WGet c n, Some e)] \<and> r = Some (Err e))
      \<or> (\<exists>out. evs = [(WGet c n, Some NotFound), (WCreate c n, out)] \<and> r = map_option Err out)
      \<or> (\<exists>e. evs = [(WGet c n, None), (WUpdate c n, Some e)] \<and> r = Some (Err e)))"

text \<open>The calls \<open>evs\<close> on the target cluster \<open>c\<close> end with a call that failed with \<open>e\<close>.\<close>

definition failsAt :: "string \<Rightarrow> string \<Rightarrow> (call \<times> error option) list \<Rightarrow> error \<Rightarrow> bool" where
  "failsAt n c evs e =
     (evs = [(WGet c n, Some e)]
      \<or> evs = [(WGet c n, Some NotFound), (WCreate c n, Some e)]
      \<or> evs = [(WGet c n, None), (WUpdate c n, Some e)])"

fun isCreate :: "call \<Rightarrow> bool" where
  "isCreate (WCreate ns n) = True"
| "isCreate c = False"

text \<open>The calls of the sweep, and the update of an AppBundle.\<close>

fun isSweepCall :: "call \<Rightarrow> bool" where
  "isSweepCall (WList ns sel) = True"
| "isSweepCall (WDelete ns n) = True"
| "isSweepCall c = False"

fun isBUpdate :: "call \<Rightarrow> bool" where
  "isBUpdate (BUpdate k) = True"
| "isBUpdate c = False"

section \<open>Example objects and states\<close>

text \<open>
  The scenario of the spec: Bundle \<open>b1\<close> (UID \<open>u1\<close>, manifests \<open>[cm1]\<close>, placement \<open>p1\<close>)
  with the decision of \<open>p1\<close> naming the clusters \<open>east\<close> and \<open>west\<close>, and a second Bundle
  \<open>b2\<close> (UID \<open>u2\<close>) with artifacts on the same clusters.
\<close>

definition ex_bundle ::
  "string \<Rightarrow> string \<Rightarrow> 'a option \<Rightarrow> string list \<Rightarrow> nat option \<Rightarrow> 'a option Object" where
  "ex_bundle n u ls fs dt =
     \<lparr>Kind = ''AppBundle'', APIVersion = ''v1alpha1'', Name = n, Namespace = ''default'',
      UID = u, Labels = ls, Annotations = None, Finalizers = fs, DeletionTimestamp = dt,
      Spec = \<lparr>Manifests = [''cm1'']\<rparr>\<rparr>"

definition ex_work :: "string \<Rightarrow> string \<Rightarrow> string \<Rightarrow> StoredObject" where
  "ex_work n c u =
     \<lparr>Kind = ''ManifestWork'', APIVersion = ''v1'', Name = n, Namespace = c, UID = [],
      Labels = Some [PlacementLabel \<mapsto> ''p1'', OwnedLabel \<mapsto> u], Annotations = None,
      Finalizers = [], DeletionTimestamp = None, Spec = \<lparr>Manifests = [''cm1'']\<rparr>\<rparr>"

definition ex_decision :: PlacementDecision where
  "ex_decision =
     \<lparr>pdName = ''p1-decision-1'', pdNamespace = ''default'',
      pdLabels = [PlacementLabel \<mapsto> ''p1''],
      pdDecisions = [\<lparr>ClusterName = ''east'', Reason = []\<rparr>,
                     \<lparr>ClusterName = ''west'', Reason = []\<rparr>]\<rparr>"

definition ex_world ::
  "StoredObject \<Rightarrow> PlacementDecision list \<Rightarrow> StoredObject list \<Rightarrow> error option list \<Rightarrow> world" where
  "ex_world sb pds ws fs =
     \<lparr>bundles = [(''default'', Name sb) \<mapsto> sb], placementDecisions = pds, works = ws,
      faults = fs, heap = [], calls = [], klog = []\<rparr>"

text \<open>
  The scenario before the first reconciliation of \<open>b1\<close>: no finalizer, no deletion
  requested, no artifact yet, no store call failing.
\<close>

definition ex_pending :: world where
  "ex_pending =
     ex_world (ex_bundle ''b1'' ''u1'' (Some [PlacementLabel \<mapsto> ''p1'']) [] None)
       [ex_decision] [] []"

text \<open>
  The scenario once the deletion of \<open>b1\<close> is requested, with the ManifestWorks \<open>ws\<close> in the
  work store and the store failures \<open>fs\<close>.
\<close>

definition ex_deleting :: "StoredObject list \<Rightarrow> error option list \<Rightarrow> world" where
  "ex_deleting ws fs =
     ex_world (ex_bundle ''b1'' ''u1'' (Some [PlacementLabel \<mapsto> ''p1'']) [''fin''] (Some 1))
       [ex_decision] ws fs"

section \<open>Effects of the store calls\<close>

lemma errOf_simps [simp]: "errOf (Inl e) = Some e" "errOf (Inr x) = None"
  by (simp_all add: errOf_def)

lemma allocMap_ext: "allocMap h mo = (r, h') \<Longrightarrow> \<exists>ext. h' = h @ ext"
  by (auto simp: allocMap_def split: option.splits)

lemma allocMap_valid: "allocMap h mo = (Some a, h') \<Longrightarrow> a < length h' \<and> mo = Some (h' ! a)"
  by (auto simp: allocMap_def split: option.splits)

lemma allocMap_nil: "allocMap h mo = (None, h') \<Longrightarrow> mo = None"
  by (auto simp: allocMap_def split: option.splits)

lemma decode_ext: "decode h so = (b, h') \<Longrightarrow> \<exists>ext. h' = h @ ext"
  by (auto simp: decode_def split: prod.splits dest!: allocMap_ext)

lemma decode_fields:
  assumes "decode h so = (b, h')"
  shows "Name b = Name so" "Namespace b = Namespace so" "UID b = UID so"
    "Finalizers b = Finalizers so" "DeletionTimestamp b = DeletionTimestamp so"
    "Spec b = Spec so" "Kind b = Kind so" "APIVersion b = APIVersion so"
  using assms by (auto simp: decode_def split: prod.splits)

lemma decode_labels:
  assumes "decode h so = (b, h')"
  shows "readMap h' (Labels b) = Labels so"
    and "\<And>a. Labels b = Some a \<Longrightarrow> a < length h'"
  using assms
  by (auto simp: decode_def allocMap_def readMap_def nth_append split: prod.splits option.splits)

lemma DeepCopy_ext: "DeepCopy h ob = (b, h') \<Longrightarrow> \<exists>ext. h' = h @ ext"
  by (auto simp: DeepCopy_def split: prod.splits dest!: allocMap_ext)

lemma DeepCopy_fields:
  assumes "DeepCopy h ob = (b, h')"
  shows "Name b = Name ob" "Namespace b = Namespace ob" "UID b = UID ob"
    "Finalizers b = Finalizers ob" "DeletionTimestamp b = DeletionTimestamp ob"
    "Spec b = Spec ob" "Kind b = Kind ob" "APIVersion b = APIVersion ob"
  using assms by (auto simp: DeepCopy_def split: prod.splits)

lemma clientGet_frame:
  assumes "clientGet k w = (r, w')"
  shows "bundles w' = bundles w" "works w' = works w"
    "placementDecisions w' = placementDecisions w"
    "calls w' = calls w @ [(BGet k, errOf r)]" "\<exists>ext. heap w' = heap w @ ext"
    "faults w' = tl (faults w)"
  using assms
  by (auto simp: clientGet_def nextFault_def record_call_def
      split: list.splits option.splits prod.splits dest!: decode_ext)

lemma clientGet_Inr:
  assumes "clientGet k w = (Inr b, w')"
  shows "\<exists>sb. bundles w k = Some sb \<and> decode (heap w) sb = (b, heap w')"
  using assms
  by (auto simp: clientGet_def nextFault_def record_call_def
      split: list.splits option.splits prod.splits)

lemma clientUpdate_frame:
  assumes "clientUpdate b w = (r, w')"
  shows "works w' = works w" "heap w' = heap w"
    "placementDecisions w' = placementDecisions w"
    "calls w' = calls w @ [(BUpdate (Namespace b, Name b), r)]"
    "faults w' = tl (faults w)"
    "r \<noteq> None \<Longrightarrow> bundles w' = bundles w"
  using assms
  by (auto simp: clientUpdate_def nextFault_def record_call_def Let_def
      split: list.splits option.splits prod.splits)

lemma listPlacementDecisions_frame:
  assumes "listPlacementDecisions ns sel w = (r, w')"
  shows "works w' = works w" "heap w' = heap w" "bundles w' = bundles w"
    "placementDecisions w' = placementDecisions w"
    "calls w' = calls w @ [(PDList ns sel, errOf r)]"
    "faults w' = tl (faults w)"
  using assms
  by (auto simp: listPlacementDecisions_def nextFault_def record_call_def
      split: list.splits option.splits prod.splits)

lemma workGet_frame:
  assumes "workGet ns n w = (r, w')"
  shows "works w' = works w" "bundles w' = bundles w"
    "placementDecisions w' = placementDecisions w"
    "calls w' = calls w @ [(WGet ns n, errOf r)]" "\<exists>ext. heap w' = heap w @ ext"
    "faults w' = tl (faults w)"
  using assms
  by (auto simp: workGet_def nextFault_def record_call_def
      split: list.splits option.splits prod.splits dest!: decode_ext)

lemma workCreate_frame:
  assumes "workCreate ns m w = (r, w')"
  shows "bundles w' = bundles w" "heap w' = heap w"
    "placementDecisions w' = placementDecisions w"
    "calls w' = calls w @ [(WCreate ns (Name m), r)]"
    "faults w' = tl (faults w)"
    "r \<noteq> None \<Longrightarrow> works w' = works w"
  using assms
  by (auto simp: workCreate_def nextFault_def record_call_def
      split: list.splits option.splits prod.splits if_splits)

lemma workUpdate_frame:
  assumes "workUpdate ns m w = (r, w')"
  shows "bundles w' = bundles w" "heap w' = heap w"
    "placementDecisions w' = placementDecisions w"
    "calls w' = calls w @ [(WUpdate ns (Name m), r)]"
    "faults w' = tl (faults w)"
    "r \<noteq> None \<Longrightarrow> works w' = works w"
  using assms
  by (auto simp: workUpdate_def nextFault_def record_call_def
      split: list.splits option.splits prod.splits if_splits)

lemma workDelete_frame:
  assumes "workDelete ns n w = (r, w')"
  shows "bundles w' = bundles w" "heap w' = heap w"
    "placementDecisions w' = placementDecisions w"
    "calls w' = calls w @ [(WDelete ns n, r)]"
    "faults w' = tl (faults w)"
    "r \<noteq> None \<Longrightarrow> works w' = works w"
    "r = None \<Longrightarrow> works w' = filter (\<lambda>x. \<not> hasKey ns n x) (works w)"
  using assms
  by (auto simp: workDelete_def nextFault_def record_call_def
      split: list.splits option.splits prod.splits if_splits)

lemma workList_frame:
  assumes "workList ns sel w = (r, w')"
  shows "bundles w' = bundles w" "heap w' = heap w" "works w' = works w"
    "placementDecisions w' = placementDecisions w"
    "calls w' = calls w @ [(WList ns sel, errOf r)]"
    "faults w' = tl (faults w)"
  using assms
  by (auto simp: workList_def nextFault_def record_call_def
      split: list.splits option.splits prod.splits if_splits)

lemma workList_all:
  "workList [] [] w = (Inr items, w') \<Longrightarrow> items = works w"
  by (auto simp: workList_def nextFault_def record_call_def inNamespace_def Matches_def
      split: list.splits option.splits prod.splits if_splits)

lemmas ex_defs = ex_bundle_def ex_work_def ex_decision_def ex_world_def
  PlacementLabel_def OwnedLabel_def

lemma generateManifest_nil_labels_panics:
  "Labels b = None \<Longrightarrow> generateManifest h b c = Inl Panic"
  by (simp add: generateManifest_def)

lemmas eval_defs = Reconcile_def reconcilePlacement_def clientGet_def clientUpdate_def
  nextFault_def record_call_def klogInfof_def decode_def encode_def DeepCopy_def allocMap_def
  readMap_def IsZero_def containsString_def AddFinalizer_def RemoveFinalizer_def
  IgnoreNotFound_def getPlacementLabel_def getPlacementDecision_def listPlacementDecisions_def
  NewRequirement_def NewSelector_def Add_def Matches_def inNamespace_def scheduleBundle_def
  scheduleBundle_body_def generateManifest_def workGet_def workCreate_def workUpdate_def
  workDelete_def workList_def hasKey_def deleteAllChildManifests_def stored_labels_def Let_def

section \<open>The sweep\<close>

lemma deleteLoop_frame:
  assumes "deleteLoop ms w = (r, w')"
  shows "bundles w' = bundles w \<and> heap w' = heap w \<and> placementDecisions w' = placementDecisions w
         \<and> set (works w') \<subseteq> set (works w)"
  using assms
proof (induction ms arbitrary: w)
  case Nil
  then show ?case by simp
next
  case (Cons m ms)
  obtain r1 w1 where d: "workDelete (Namespace m) (Name m) w = (r1, w1)"
    by (cases "workDelete (Namespace m) (Name m) w")
  have sub: "set (works w1) \<subseteq> set (works w)"
    using workDelete_frame(6,7)[OF d] by (cases r1) auto
  show ?case
  proof (cases r1)
    case None
    with Cons.prems d have "deleteLoop ms w1 = (r, w')" by simp
    from Cons.IH[OF this] workDelete_frame(1-3)[OF d] sub show ?thesis by auto
  next
    case (Some e)
    with Cons.prems d have "w' = w1" by simp
    with workDelete_frame(1-3)[OF d] sub show ?thesis by simp
  qed
qed

lemma deleteLoop_success:
  assumes "deleteLoop ms w = (None, w')"
  shows "works w' = filter (\<lambda>x. \<forall>m\<in>set ms. \<not> hasKey (Namespace m) (Name m) x) (works w)"
  using assms
proof (induction ms arbitrary: w)
  case Nil
  then show ?case by simp
next
  case (Cons m ms)
  obtain r1 w1 where d: "workDelete (Namespace m) (Name m) w = (r1, w1)"
    by (cases "workDelete (Namespace m) (Name m) w")
  with Cons.prems have r1: "r1 = None" and rest: "deleteLoop ms w1 = (None, w')"
    by (auto split: option.splits)
  have "works w1 = filter (\<lambda>x. \<not> hasKey (Namespace m) (Name m) x) (works w)"
    using workDelete_frame(7)[OF d r1] .
  with Cons.IH[OF rest] show ?case
    by (auto intro: filter_cong)
qed

lemma deleteLoop_calls:
  assumes "deleteLoop ms w = (r, w')"
  shows "\<exists>evs. calls w' = calls w @ evs
           \<and> (\<forall>ev\<in>set evs. \<exists>ns n out. ev = (WDelete ns n, out))
           \<and> (\<forall>ev\<in>set evs. \<forall>e. snd ev = Some e \<longrightarrow> r = Some e)"
  using assms
proof (induction ms arbitrary: w)
  case Nil
  then show ?case by simp
next
  case (Cons m ms)
  obtain r1 w1 where d: "workDelete (Namespace m) (Name m) w = (r1, w1)"
    by (cases "workDelete (Namespace m) (Name m) w")
  note c1 = workDelete_frame(4)[OF d]
  show ?case
  proof (cases r1)
    case None
    with Cons.prems d have "deleteLoop ms w1 = (r, w')" by simp
    from Cons.IH[OF this] obtain evs where
      evs: "calls w' = calls w1 @ evs"
        "\<forall>ev\<in>set evs. \<exists>ns n out. ev = (WDelete ns n, out)"
        "\<forall>ev\<in>set evs. \<forall>e. snd ev = Some e \<longrightarrow> r = Some e"
      by blast
    show ?thesis
      by (rule exI[of _ "(WDelete (Namespace m) (Name m), None) # evs"])
         (use evs c1 None in auto)
  next
    case (Some e)
    with Cons.prems d have "w' = w1" "r = Some e" by simp_all
    then show ?thesis
      by (intro exI[of _ "[(WDelete (Namespace m) (Name m), Some e)]"])
         (use c1 Some in auto)
  qed
qed

lemma sweep_frame:
  assumes "deleteAllChildManifests b w = (r, w')"
  shows "bundles w' = bundles w \<and> heap w' = heap w \<and> placementDecisions w' = placementDecisions w
         \<and> set (works w') \<subseteq> set (works w)"
proof -
  obtain l w1 where l: "workList [] [] w = (l, w1)" by (cases "workList [] [] w")
  show ?thesis
  proof (cases l)
    case (Inl e)
    with assms l have "w' = w1" by (simp add: deleteAllChildManifests_def)
    with workList_frame[OF l] show ?thesis by simp
  next
    case (Inr items)
    with assms l have "deleteLoop items w1 = (r, w')" by (simp add: deleteAllChildManifests_def)
    from deleteLoop_frame[OF this] workList_frame[OF l] show ?thesis by simp
  qed
qed

lemma sweep_success_empties:
  assumes "deleteAllChildManifests b w = (None, w')"
  shows "works w' = []"
proof -
  obtain l w1 where l: "workList [] [] w = (l, w1)" by (cases "workList [] [] w")
  from assms l obtain items where i: "l = Inr items" and d: "deleteLoop items w1 = (None, w')"
    by (cases l) (auto simp: deleteAllChildManifests_def)
  have "items = works w" using workList_all l i by blast
  moreover have "works w1 = works w" using workList_frame(3)[OF l] .
  ultimately show ?thesis
    using deleteLoop_success[OF d] by (auto simp: hasKey_def filter_empty_conv)
qed

lemma sweep_calls:
  assumes "deleteAllChildManifests b w = (r, w')"
  shows "\<exists>out evs. calls w' = calls w @ (WList [] [], out) # evs
           \<and> (\<forall>ev\<in>set evs. \<exists>ns n out. ev = (WDelete ns n, out))
           \<and> (\<forall>ev\<in>set ((WList [] [], out) # evs). \<forall>e. snd ev = Some e \<longrightarrow> r = Some e)"
proof -
  obtain l w1 where l: "workList [] [] w = (l, w1)" by (cases "workList [] [] w")
  note c = workList_frame(5)[OF l]
  show ?thesis
  proof (cases l)
    case (Inl e)
    with assms l have "w' = w1" "r = Some e" by (simp_all add: deleteAllChildManifests_def)
    with c Inl show ?thesis by auto
  next
    case (Inr items)
    with assms l have "deleteLoop items w1 = (r, w')" by (simp add: deleteAllChildManifests_def)
    from deleteLoop_calls[OF this] c Inr show ?thesis by auto
  qed
qed

section \<open>Scheduling\<close>

lemma workGet_Inr:
  assumes "workGet ns n w = (Inr m, w')"
  shows "Name m = n" "Namespace m = ns"
proof -
  from assms obtain sw where f: "find (hasKey ns n) (works w) = Some sw"
    and d: "decode (heap w) sw = (m, heap w')"
    by (auto simp: workGet_def nextFault_def record_call_def
        split: list.splits option.splits prod.splits)
  from f have "hasKey ns n sw" by (auto simp: find_Some_iff)
  with decode_fields(1,2)[OF d] show "Name m = n" "Namespace m = ns"
    by (simp_all add: hasKey_def)
qed

lemma generateManifest_Some:
  assumes "Labels b = Some a"
  shows "\<exists>m h'. generateManifest h b c = Inr (m, h') \<and> Name m = Name b \<and> Namespace m = c"
  using assms by (simp add: generateManifest_def)

lemma generateManifest_Inr:
  assumes "generateManifest h b c = Inr (m, h')"
  shows "Name m = Name b" "Namespace m = c" "length h' = length h" "Labels b \<noteq> None"
  using assms by (auto simp: generateManifest_def Let_def split: option.splits)

text \<open>The calls of one iteration, and what the iteration does after them.\<close>

lemma scheduleBundle_body_calls:
  assumes "Labels b = Some a" and "scheduleBundle_body b d w = (ctl, w')"
  shows "\<exists>g rest. calls w' = calls w @ (WGet (ClusterName d) (Name b), g) # rest
           \<and> ((\<exists>e. g = Some e \<and> e \<noteq> NotFound \<and> rest = [] \<and> ctl = Return (Some (Err e)))
              \<or> (\<exists>out. g = Some NotFound \<and> rest = [(WCreate (ClusterName d) (Name b), out)]
                    \<and> ctl = Return (map_option Err out))
              \<or> (\<exists>e. g = None \<and> rest = [(WUpdate (ClusterName d) (Name b), Some e)]
                    \<and> ctl = Return (Some (Err e)))
              \<or> (g = None \<and> rest = [(WUpdate (ClusterName d) (Name b), None)]
                    \<and> ctl = Continue))"
proof -
  let ?c = "ClusterName d"
  let ?w1 = "klogInfof (LogGenerating ?c) w"
  from generateManifest_Some[OF assms(1)] obtain m h where
    gm: "generateManifest (heap ?w1) b ?c = Inr (m, h)" and nm: "Name m = Name b"
    by blast
  let ?w2 = "klogInfof (LogApplying ?c) (?w1\<lparr>heap := h\<rparr>)"
  have c2: "calls ?w2 = calls w" by (simp add: klogInfof_def)
  obtain g w3 where get: "workGet ?c (Name m) ?w2 = (g, w3)"
    by (cases "workGet ?c (Name m) ?w2")
  have c3: "calls w3 = calls w @ [(WGet ?c (Name b), errOf g)]"
    using workGet_frame(4)[OF get] c2 nm by simp
  show ?thesis
  proof (cases g)
    case (Inl e)
    show ?thesis
    proof (cases "e = NotFound")
      case True
      obtain out w4 where cr: "workCreate ?c m w3 = (out, w4)"
        by (cases "workCreate ?c m w3")
      have "ctl = Return (map_option Err out)" "w' = w4"
        using assms(2) gm get Inl True cr
        by (simp_all add: scheduleBundle_body_def Let_def)
      with workCreate_frame(4)[OF cr] c3 Inl True nm show ?thesis by simp
    next
      case False
      have "ctl = Return (Some (Err e))" "w' = w3"
        using assms(2) gm get Inl False
        by (simp_all add: scheduleBundle_body_def Let_def)
      with c3 Inl False show ?thesis by simp
    qed
  next
    case (Inr existing)
    obtain nm0 h' where dc: "DeepCopy (heap w3) existing = (nm0, h')"
      by (cases "DeepCopy (heap w3) existing")
    let ?new = "nm0\<lparr>Spec := Spec m, Labels := Labels m, Annotations := Annotations m\<rparr>"
    have nn: "Name ?new = Name b"
      using DeepCopy_fields(1)[OF dc] workGet_Inr(1)[OF get[unfolded Inr]] nm by simp
    obtain u w4 where up: "workUpdate ?c ?new (w3\<lparr>heap := h'\<rparr>) = (u, w4)"
      by (cases "workUpdate ?c ?new (w3\<lparr>heap := h'\<rparr>)")
    have c4: "calls w4 = calls w @ [(WGet ?c (Name b), None), (WUpdate ?c (Name b), u)]"
      using workUpdate_frame(4)[OF up] c3 Inr nn by simp
    show ?thesis
    proof (cases u)
      case None
      have "ctl = Continue" "w' = w4"
        using assms(2) gm get Inr dc up None
        by (simp_all add: scheduleBundle_body_def Let_def)
      with c4 None show ?thesis by simp
    next
      case (Some e)
      have "ctl = Return (Some (Err e))" "w' = w4"
        using assms(2) gm get Inr dc up Some
        by (simp_all add: scheduleBundle_body_def Let_def)
      with c4 Some show ?thesis by simp
    qed
  qed
qed

lemma scheduleBundle_body_no_panic:
  assumes "Labels b = Some a"
  shows "fst (scheduleBundle_body b d w) \<noteq> Return (Some Panic)"
proof -
  obtain ctl w' where s: "scheduleBundle_body b d w = (ctl, w')"
    by (cases "scheduleBundle_body b d w")
  from scheduleBundle_body_calls[OF assms s] have "ctl \<noteq> Return (Some Panic)"
    by (auto simp: map_option_case split: option.splits)
  with s show ?thesis by simp
qed

lemma scheduleBundle_loop_no_panic:
  assumes "Labels b = Some a"
  shows "fst (scheduleBundle_loop b ds w) \<noteq> Some Panic"
proof (induction ds arbitrary: w)
  case Nil
  then show ?case by simp
next
  case (Cons d ds)
  obtain ctl w' where s: "scheduleBundle_body b d w = (ctl, w')"
    by (cases "scheduleBundle_body b d w")
  with scheduleBundle_body_no_panic[OF assms, of d w] have np: "ctl \<noteq> Return (Some Panic)"
    by simp
  show ?case
  proof (cases ctl)
    case Continue
    with s Cons.IH[of w'] show ?thesis by simp
  next
    case (Return r)
    with s np show ?thesis by simp
  qed
qed

lemma scheduleBundle_nil_labels_panics:
  assumes "Labels b = None" and "pdDecisions dec \<noteq> []"
  shows "fst (scheduleBundle b dec w) = Some Panic"
proof -
  from assms(2) obtain d ds where ds: "pdDecisions dec = d # ds"
    by (cases "pdDecisions dec") auto
  have "fst (scheduleBundle_body b d w) = Return (Some Panic)"
    using assms(1) by (simp add: scheduleBundle_body_def generateManifest_def Let_def)
  then show ?thesis
    by (cases "scheduleBundle_body b d w") (simp add: scheduleBundle_def ds)
qed

section \<open>Reconciliation\<close>

lemma getPlacementLabel_Some:
  "getPlacementLabel h bundle = Some p \<Longrightarrow> \<exists>a. Labels bundle = Some a"
  by (auto simp: getPlacementLabel_def split: option.splits)

lemma reconcilePlacement_no_panic:
  "fst (reconcilePlacement bundle req w) \<noteq> Some Panic"
proof (cases "getPlacementLabel (heap w) bundle")
  case None
  then show ?thesis by (simp add: reconcilePlacement_def)
next
  case (Some p)
  from getPlacementLabel_Some[OF Some] obtain a where a: "Labels bundle = Some a" ..
  let ?w1 = "klogInfof (LogPlacementLabelFound p (Name bundle)) w"
  obtain r w2 where g: "getPlacementDecision p (fst req) ?w1 = (r, w2)"
    by (cases "getPlacementDecision p (fst req) ?w1")
  show ?thesis
  proof (cases r)
    case (Inl e)
    with Some g show ?thesis by (simp add: reconcilePlacement_def Let_def)
  next
    case (Inr dec)
    let ?w3 = "klogInfof (LogFound (pdDecisions dec)) w2"
    obtain s w4 where s: "scheduleBundle bundle dec ?w3 = (s, w4)"
      by (cases "scheduleBundle bundle dec ?w3")
    with scheduleBundle_loop_no_panic[OF a, of "pdDecisions dec" ?w3]
    have "s \<noteq> Some Panic" by (simp add: scheduleBundle_def)
    with Some g Inr s show ?thesis
      by (auto simp: reconcilePlacement_def Let_def split: option.splits)
  qed
qed

subsection \<open>The paths of Reconcile\<close>

lemma Reconcile_Get_error:
  assumes "clientGet req w = (Inl e, w1)"
  shows "Reconcile fin ic req w = (IgnoreNotFound e, w1)"
  using assms by (simp add: Reconcile_def)

lemma Reconcile_active:
  assumes "clientGet req w = (Inr bu, w1)" and "IsZero (DeletionTimestamp bu)"
    and "DeepCopy (heap w1) bu = (b, h)" and "fin \<in> set (Finalizers bu)"
  shows "Reconcile fin ic req w = reconcilePlacement bu req (w1\<lparr>heap := h\<rparr>)"
  using assms DeepCopy_fields(4)[OF assms(3)]
  by (simp add: Reconcile_def Let_def containsString_def)

lemma Reconcile_pending:
  assumes "clientGet req w = (Inr bu, w1)" and "IsZero (DeletionTimestamp bu)"
    and "DeepCopy (heap w1) bu = (b, h)" and "fin \<notin> set (Finalizers bu)"
    and "clientUpdate (AddFinalizer b fin) (w1\<lparr>heap := h\<rparr>) = (u, w3)"
  shows "Reconcile fin ic req w =
           (case u of Some err \<Rightarrow> (Some (Err err), w3)
            | None \<Rightarrow> reconcilePlacement bu req w3)"
  using assms DeepCopy_fields(4)[OF assms(3)]
  by (simp add: Reconcile_def Let_def containsString_def split: option.splits)

lemma Reconcile_deleting:
  assumes "clientGet req w = (Inr bu, w1)" and "\<not> IsZero (DeletionTimestamp bu)"
    and "DeepCopy (heap w1) bu = (b, h)" and "fin \<in> set (Finalizers bu)"
    and "deleteAllChildManifests b (w1\<lparr>heap := h\<rparr>) = (s, w3)"
    and "clientUpdate (RemoveFinalizer b fin) w3 = (u, w4)"
  shows "Reconcile fin ic req w =
           (case s of Some err \<Rightarrow> (Some (Err err), w3)
            | None \<Rightarrow> (case u of Some err \<Rightarrow> (map_option Err (ic err), w4)
                        | None \<Rightarrow> (None, w4)))"
  using assms DeepCopy_fields(4)[OF assms(3)]
  by (simp add: Reconcile_def Let_def containsString_def split: option.splits)

lemma Reconcile_released:
  assumes "clientGet req w = (Inr bu, w1)" and "\<not> IsZero (DeletionTimestamp bu)"
    and "DeepCopy (heap w1) bu = (b, h)" and "fin \<notin> set (Finalizers bu)"
  shows "Reconcile fin ic req w = (None, w1\<lparr>heap := h\<rparr>)"
  using assms DeepCopy_fields(4)[OF assms(3)]
  by (simp add: Reconcile_def Let_def containsString_def)

lemma getPlacementDecision_frame:
  assumes "getPlacementDecision p ns w = (r, w')"
  shows "works w' = works w" "heap w' = heap w" "bundles w' = bundles w"
    "placementDecisions w' = placementDecisions w"
    "\<exists>out. calls w' = calls w @ [(PDList ns [(PlacementLabel, p)], out)]"
    "klog w' = klog w @ [LogNamespace ns]"
proof -
  let ?w0 = "klogInfof (LogNamespace ns) w"
  obtain l w1 where l: "listPlacementDecisions ns [(PlacementLabel, p)] ?w0 = (l, w1)"
    by (cases "listPlacementDecisions ns [(PlacementLabel, p)] ?w0")
  have k: "klog w1 = klog ?w0" using l
    by (auto simp: listPlacementDecisions_def nextFault_def record_call_def
        split: list.splits option.splits prod.splits)
  have w': "w' = w1"
    using assms l
    by (auto simp: getPlacementDecision_def Let_def NewRequirement_def NewSelector_def Add_def
        split: sum.splits if_splits)
  from listPlacementDecisions_frame[OF l] w' k
  show "works w' = works w" "heap w' = heap w" "bundles w' = bundles w"
    "placementDecisions w' = placementDecisions w"
    "\<exists>out. calls w' = calls w @ [(PDList ns [(PlacementLabel, p)], out)]"
    "klog w' = klog w @ [LogNamespace ns]"
    by (simp_all add: klogInfof_def)
qed

subsection \<open>Steps that write no ManifestWork\<close>

lemma quiet_refl: "quiet w w"
  by (simp add: quiet_def)

lemma quiet_trans: "quiet w w1 \<Longrightarrow> quiet w1 w2 \<Longrightarrow> quiet w w2"
  by (auto simp: quiet_def)

lemma quiet_same:
  "works w' = works w \<Longrightarrow> calls w' = calls w \<Longrightarrow> quiet w w'"
  by (simp add: quiet_def)

lemma quiet_call:
  "set (works w') \<subseteq> set (works w) \<Longrightarrow> calls w' = calls w @ [(c, out)] \<Longrightarrow> \<not> writesWork c
     \<Longrightarrow> quiet w w'"
  by (simp add: quiet_def)

lemma quiet_clientGet: "clientGet k w = (r, w') \<Longrightarrow> quiet w w'"
  using clientGet_frame(2,4) by (intro quiet_call) auto

lemma quiet_clientUpdate: "clientUpdate b w = (r, w') \<Longrightarrow> quiet w w'"
  using clientUpdate_frame(1,4) by (intro quiet_call) auto

lemma quiet_getPlacementDecision:
  assumes "getPlacementDecision p ns w = (r, w')"
  shows "quiet w w'"
proof -
  from getPlacementDecision_frame(5)[OF assms] obtain out where
    "calls w' = calls w @ [(PDList ns [(PlacementLabel, p)], out)]" ..
  with getPlacementDecision_frame(1)[OF assms] show ?thesis
    by (intro quiet_call) auto
qed

lemma quiet_sweep:
  assumes "deleteAllChildManifests b w = (r, w')"
  shows "quiet w w'"
proof -
  from sweep_calls[OF assms] obtain out evs where
    c: "calls w' = calls w @ (WList [] [], out) # evs"
    and d: "\<forall>ev\<in>set evs. \<exists>ns n out. ev = (WDelete ns n, out)"
    by blast
  from d have "list_all (\<lambda>ev. \<not> writesWork (fst ev)) ((WList [] [], out) # evs)"
    by (auto simp: list_all_iff)
  with c sweep_frame[OF assms] show ?thesis
    unfolding quiet_def by blast
qed

lemma quiet_reconcilePlacement_empty:
  assumes "Manifests (Spec bu) = []" and "reconcilePlacement bu req w = (r, w')"
  shows "quiet w w'"
proof (cases "getPlacementLabel (heap w) bu")
  case None
  with assms(2) have "w' = klogInfof (LogNoPlacementLabel (Name bu)) w"
    by (simp add: reconcilePlacement_def)
  then show ?thesis by (simp add: quiet_def klogInfof_def)
next
  case (Some p)
  let ?w1 = "klogInfof (LogPlacementLabelFound p (Name bu)) w"
  obtain g w2 where g: "getPlacementDecision p (fst req) ?w1 = (g, w2)"
    by (cases "getPlacementDecision p (fst req) ?w1")
  have q1: "quiet w ?w1" by (simp add: quiet_def klogInfof_def)
  have q2: "quiet ?w1 w2" using quiet_getPlacementDecision[OF g] .
  have "w' = w2 \<or> (\<exists>l. w' = klogInfof l w2)"
    using assms Some g
    by (auto simp: reconcilePlacement_def Let_def split: sum.splits)
  then have "quiet w2 w'" by (auto simp: quiet_def klogInfof_def)
  with q1 q2 show ?thesis by (blast intro: quiet_trans)
qed

subsection \<open>Placement resolution inside Reconcile\<close>

lemma nextFault_klogInfof [simp]: "fst (nextFault (klogInfof l w)) = fst (nextFault w)"
  by (simp add: nextFault_def klogInfof_def split: list.splits)

lemma nextFault_no_faults: "faults w = [] \<Longrightarrow> fst (nextFault w) = None"
  by (simp add: nextFault_def)

lemma klogInfof_fields [simp]:
  "works (klogInfof l w) = works w" "bundles (klogInfof l w) = bundles w"
  "heap (klogInfof l w) = heap w" "calls (klogInfof l w) = calls w"
  "faults (klogInfof l w) = faults w"
  "placementDecisions (klogInfof l w) = placementDecisions w"
  "klog (klogInfof l w) = klog w @ [l]"
  by (simp_all add: klogInfof_def)

lemma getPlacementDecision_result:
  "fst (getPlacementDecision p ns w) =
     (case fst (nextFault w) of
        Some e \<Rightarrow> Inl e
      | None \<Rightarrow>
          (case filter (\<lambda>d. inNamespace ns (pdNamespace d) \<and> pdLabels d PlacementLabel = Some p)
                  (placementDecisions w) of
             [] \<Rightarrow> Inl (Errorf (''Could not find placement decision for placement '' @ p @ '' ''))
           | d # ds \<Rightarrow> Inr d))"
  by (auto simp: getPlacementDecision_def listPlacementDecisions_def nextFault_def Let_def
      NewRequirement_def NewSelector_def Add_def Matches_def record_call_def klogInfof_def
      split: list.splits option.splits)

lemma clientGet_ok:
  assumes "bundles w req = Some sb" and "fst (nextFault w) = None"
  shows "\<exists>bu w1. clientGet req w = (Inr bu, w1) \<and> decode (heap w) sb = (bu, heap w1)"
  using assms
  by (auto simp: clientGet_def nextFault_def record_call_def
      split: list.splits option.splits prod.splits)

lemma getPlacementLabel_ext:
  assumes "Labels bu = Some a" and "a < length h"
  shows "getPlacementLabel (h @ ext) bu = getPlacementLabel h bu"
  using assms by (simp add: getPlacementLabel_def nth_append)

lemma decode_getPlacementLabel:
  assumes "decode h0 sb = (bu, h)" and "stored_labels sb PlacementLabel = Some p"
  shows "getPlacementLabel (h @ ext) bu = Some p"
proof -
  from assms(2) obtain m where m: "Labels sb = Some m" "m PlacementLabel = Some p"
    by (auto simp: stored_labels_def split: option.splits)
  from decode_labels(1)[OF assms(1)] m(1) obtain a where a: "Labels bu = Some a" "h ! a = m"
    by (auto simp: readMap_def split: option.splits)
  from decode_labels(2)[OF assms(1) a(1)] have "a < length h" .
  with a m(2) show ?thesis by (simp add: getPlacementLabel_def nth_append)
qed

lemma reconcilePlacement_unresolved:
  assumes "getPlacementLabel (heap w) bu = Some p"
    and "filter (\<lambda>d. inNamespace (fst req) (pdNamespace d) \<and> pdLabels d PlacementLabel = Some p)
           (placementDecisions w) = []"
  shows "\<exists>e. fst (reconcilePlacement bu req w) = Some (Err e)"
    and "works (snd (reconcilePlacement bu req w)) = works w"
    and "bundles (snd (reconcilePlacement bu req w)) = bundles w"
    and "fst (nextFault w) = None \<Longrightarrow>
           fst (reconcilePlacement bu req w) =
             Some (Err (Errorf (''Could not find placement decision for placement '' @ p @ '' '')))"
    and "fst (nextFault w) = None \<Longrightarrow>
           klog (snd (reconcilePlacement bu req w)) =
             klog w @ [LogPlacementLabelFound p (Name bu), LogNamespace (fst req)]"
proof -
  let ?w1 = "klogInfof (LogPlacementLabelFound p (Name bu)) w"
  obtain g w2 where g: "getPlacementDecision p (fst req) ?w1 = (g, w2)"
    by (cases "getPlacementDecision p (fst req) ?w1")
  have "fst (getPlacementDecision p (fst req) ?w1) =
          (case fst (nextFault w) of Some e \<Rightarrow> Inl e
           | None \<Rightarrow> Inl (Errorf (''Could not find placement decision for placement ''
                                   @ p @ '' '')))"
    by (simp add: getPlacementDecision_result assms(2) split: option.splits)
  with g have res: "g = (case fst (nextFault w) of Some e \<Rightarrow> Inl e
               | None \<Rightarrow> Inl (Errorf (''Could not find placement decision for placement ''
                                       @ p @ '' '')))"
    by simp
  then obtain e where e: "g = Inl e" by (cases "fst (nextFault w)") auto
  have r: "reconcilePlacement bu req w = (Some (Err e), w2)"
    using assms(1) g e by (simp add: reconcilePlacement_def Let_def)
  show "\<exists>e. fst (reconcilePlacement bu req w) = Some (Err e)" using r by simp
  show "works (snd (reconcilePlacement bu req w)) = works w"
    using r getPlacementDecision_frame(1)[OF g] by simp
  show "bundles (snd (reconcilePlacement bu req w)) = bundles w"
    using r getPlacementDecision_frame(3)[OF g] by simp
  show "fst (reconcilePlacement bu req w) =
          Some (Err (Errorf (''Could not find placement decision for placement '' @ p @ '' '')))"
    if "fst (nextFault w) = None"
    using r res e that by simp
  show "klog (snd (reconcilePlacement bu req w)) =
          klog w @ [LogPlacementLabelFound p (Name bu), LogNamespace (fst req)]"
    if "fst (nextFault w) = None"
    using r getPlacementDecision_frame(6)[OF g] by simp
qed

subsection \<open>The calls of a scheduling pass\<close>

lemma scheduleBundle_loop_calls:
  assumes "Labels b = Some a" and "scheduleBundle_loop b ds w = (r, w')"
  shows "\<exists>k evs. k \<le> length ds
           \<and> calls w' = calls w @ concat (map (converged (Name b)) (take k ds)) @ evs
           \<and> ((k = length ds \<and> evs = [] \<and> r = None)
              \<or> (k < length ds \<and> returnsAt (Name b) (ClusterName (ds ! k)) evs r))"
  using assms(2)
proof (induction ds arbitrary: w)
  case Nil
  then show ?case by simp
next
  case (Cons d ds)
  obtain ctl w1 where s: "scheduleBundle_body b d w = (ctl, w1)"
    by (cases "scheduleBundle_body b d w")
  from scheduleBundle_body_calls[OF assms(1) s] obtain g rest where
    c: "calls w1 = calls w @ (WGet (ClusterName d) (Name b), g) # rest"
    and sh: "(\<exists>e. g = Some e \<and> e \<noteq> NotFound \<and> rest = [] \<and> ctl = Return (Some (Err e)))
            \<or> (\<exists>out. g = Some NotFound \<and> rest = [(WCreate (ClusterName d) (Name b), out)]
                  \<and> ctl = Return (map_option Err out))
            \<or> (\<exists>e. g = None \<and> rest = [(WUpdate (ClusterName d) (Name b), Some e)]
                  \<and> ctl = Return (Some (Err e)))
            \<or> (g = None \<and> rest = [(WUpdate (ClusterName d) (Name b), None)]
                  \<and> ctl = Continue)"
    by blast
  show ?case
  proof (cases ctl)
    case Continue
    with sh have c1: "calls w1 = calls w @ converged (Name b) d"
      using c by (auto simp: converged_def)
    from Cons.prems s Continue have "scheduleBundle_loop b ds w1 = (r, w')" by simp
    from Cons.IH[OF this] obtain k evs where k: "k \<le> length ds"
      and c2: "calls w' = calls w1 @ concat (map (converged (Name b)) (take k ds)) @ evs"
      and e: "(k = length ds \<and> evs = [] \<and> r = None)
              \<or> (k < length ds \<and> returnsAt (Name b) (ClusterName (ds ! k)) evs r)"
      by blast
    show ?thesis
      by (rule exI[of _ "Suc k"], rule exI[of _ evs]) (use k c1 c2 e in auto)
  next
    case (Return r0)
    with Cons.prems s have r: "r = r0" and w': "w' = w1" by simp_all
    from sh Return have "returnsAt (Name b) (ClusterName d) ((WGet (ClusterName d) (Name b), g) # rest) r0"
      by (auto simp: returnsAt_def)
    then show ?thesis
      by (intro exI[of _ 0] exI[of _ "(WGet (ClusterName d) (Name b), g) # rest"])
         (use c r w' in simp)
  qed
qed

lemma scheduleBundle_loop_first_call:
  assumes "Labels b = Some a" and "scheduleBundle_loop b (d # ds) w = (r, w')"
  shows "\<exists>out evs. calls w' = calls w @ (WGet (ClusterName d) (Name b), out) # evs"
proof -
  from scheduleBundle_loop_calls[OF assms] obtain k evs where
    c: "calls w' = calls w @ concat (map (converged (Name b)) (take k (d # ds))) @ evs"
    and e: "(k = length (d # ds) \<and> evs = [] \<and> r = None)
            \<or> (k < length (d # ds) \<and> returnsAt (Name b) (ClusterName ((d # ds) ! k)) evs r)"
    by blast
  show ?thesis
  proof (cases k)
    case 0
    with e have "returnsAt (Name b) (ClusterName d) evs r" by simp
    then obtain out evs' where "evs = (WGet (ClusterName d) (Name b), out) # evs'"
      by (auto simp: returnsAt_def)
    with c 0 show ?thesis by simp
  next
    case (Suc j)
    with c show ?thesis by (simp add: converged_def)
  qed
qed

subsection \<open>After the finalizer is added\<close>

lemma clientUpdate_None:
  assumes "clientUpdate b w = (None, w')"
  shows "bundles w' =
           (if \<not> IsZero (DeletionTimestamp b) \<and> Finalizers b = []
            then (bundles w)((Namespace b, Name b) := None)
            else (bundles w)((Namespace b, Name b) \<mapsto> encode (heap w) b))"
  using assms
  by (auto simp: clientUpdate_def nextFault_def record_call_def Let_def encode_def
      split: list.splits option.splits prod.splits if_splits)

lemma getPlacementDecision_Inr_calls:
  assumes "getPlacementDecision p ns w = (Inr dec, w')"
  shows "calls w' = calls w @ [(PDList ns [(PlacementLabel, p)], None)]"
  using assms
  by (auto simp: getPlacementDecision_def listPlacementDecisions_def nextFault_def Let_def
      NewRequirement_def NewSelector_def Add_def record_call_def klogInfof_def
      split: list.splits option.splits if_splits)

lemma getPlacementDecision_klogInfof:
  "fst (getPlacementDecision p ns (klogInfof l w)) = fst (getPlacementDecision p ns w)"
  by (simp add: getPlacementDecision_result split: option.splits)

lemma reconcilePlacement_calls:
  assumes "getPlacementLabel (heap w) bu = Some p"
  shows "\<exists>out evs. calls (snd (reconcilePlacement bu req w)) =
                      calls w @ (PDList (fst req) [(PlacementLabel, p)], out) # evs
           \<and> (\<forall>dec d ds. fst (getPlacementDecision p (fst req) w) = Inr dec
                  \<and> Manifests (Spec bu) \<noteq> [] \<and> pdDecisions dec = d # ds \<longrightarrow>
                  out = None
                  \<and> (\<exists>out' evs'. evs = (WGet (ClusterName d) (Name bu), out') # evs'))"
proof -
  from getPlacementLabel_Some[OF assms] obtain a where a: "Labels bu = Some a" ..
  let ?w1 = "klogInfof (LogPlacementLabelFound p (Name bu)) w"
  obtain g w2 where g: "getPlacementDecision p (fst req) ?w1 = (g, w2)"
    by (cases "getPlacementDecision p (fst req) ?w1")
  have fg: "fst (getPlacementDecision p (fst req) w) = g"
    using getPlacementDecision_klogInfof[of p "fst req" "LogPlacementLabelFound p (Name bu)" w] g
    by simp
  show ?thesis
  proof (cases g)
    case (Inl e)
    from getPlacementDecision_frame(5)[OF g] obtain out where
      c: "calls w2 = calls w @ [(PDList (fst req) [(PlacementLabel, p)], out)]" by auto
    have "snd (reconcilePlacement bu req w) = w2"
      using assms g Inl by (simp add: reconcilePlacement_def Let_def)
    with c fg Inl show ?thesis by auto
  next
    case (Inr dec)
    have c: "calls w2 = calls w @ [(PDList (fst req) [(PlacementLabel, p)], None)]"
      using getPlacementDecision_Inr_calls[OF g[unfolded Inr]] by simp
    let ?w3 = "klogInfof (LogFound (pdDecisions dec)) w2"
    show ?thesis
    proof (cases "Manifests (Spec bu) = []")
      case True
      have "snd (reconcilePlacement bu req w) = ?w3"
        using assms g Inr True by (simp add: reconcilePlacement_def Let_def)
      with c True show ?thesis by simp
    next
      case False
      obtain s w4 where s: "scheduleBundle_loop bu (pdDecisions dec) ?w3 = (s, w4)"
        by (cases "scheduleBundle_loop bu (pdDecisions dec) ?w3")
      have w4: "snd (reconcilePlacement bu req w) = w4"
        using assms g Inr False s
        by (auto simp: reconcilePlacement_def scheduleBundle_def Let_def split: option.splits)
      from scheduleBundle_loop_calls[OF a s] obtain evs where
        e: "calls w4 = calls w2 @ evs" by auto
      have "\<exists>out' evs'. evs = (WGet (ClusterName d) (Name bu), out') # evs'"
        if "pdDecisions dec = d # ds" for d ds
        using scheduleBundle_loop_first_call[OF a s[unfolded that]] e by simp
      with w4 e c fg Inr show ?thesis by auto
    qed
  qed
qed

subsection \<open>Deletion\<close>

lemma Reconcile_deleting_calls:
  assumes g: "clientGet req w = (Inr bu, w1)" and nz: "\<not> IsZero (DeletionTimestamp bu)"
    and fin: "fin \<in> set (Finalizers bu)" and R: "Reconcile fin ic req w = (r, w')"
  shows "\<exists>out dels. list_all (\<lambda>ev. isSweepCall (fst ev)) ((WList [] [], out) # dels)
           \<and> ((\<exists>e. r = Some (Err e) \<and> bundles w' = bundles w
                  \<and> calls w' = calls w @ (BGet req, None) # (WList [] [], out) # dels
                  \<and> (\<forall>ev\<in>set ((WList [] [], out) # dels). \<forall>e'. snd ev = Some e' \<longrightarrow> e' = e))
              \<or> (\<exists>u. works w' = []
                  \<and> calls w' = calls w @ (BGet req, None) # (WList [] [], out) # dels
                                 @ [(BUpdate (Namespace bu, Name bu), u)]
                  \<and> (\<forall>ev\<in>set ((WList [] [], out) # dels). snd ev = None)
                  \<and> r = (case u of None \<Rightarrow> None | Some e \<Rightarrow> map_option Err (ic e))
                  \<and> (u \<noteq> None \<longrightarrow> bundles w' = bundles w)))"
proof -
  obtain b h where dc: "DeepCopy (heap w1) bu = (b, h)" by (cases "DeepCopy (heap w1) bu")
  let ?w2 = "w1\<lparr>heap := h\<rparr>"
  obtain s w3 where s: "deleteAllChildManifests b ?w2 = (s, w3)"
    by (cases "deleteAllChildManifests b ?w2")
  obtain u w4 where u: "clientUpdate (RemoveFinalizer b fin) w3 = (u, w4)"
    by (cases "clientUpdate (RemoveFinalizer b fin) w3")
  note R' = Reconcile_deleting[OF g nz dc fin s u, of ic]
  have c1: "calls ?w2 = calls w @ [(BGet req, None)]"
    using clientGet_frame(4)[OF g] by simp
  have b1: "bundles ?w2 = bundles w" using clientGet_frame(1)[OF g] by simp
  from sweep_calls[OF s] obtain out dels where
    c3: "calls w3 = calls ?w2 @ (WList [] [], out) # dels"
    and d: "\<forall>ev\<in>set dels. \<exists>ns n out. ev = (WDelete ns n, out)"
    and o: "\<forall>ev\<in>set ((WList [] [], out) # dels). \<forall>e. snd ev = Some e \<longrightarrow> s = Some e"
    by blast
  from d have sc: "list_all (\<lambda>ev. isSweepCall (fst ev)) ((WList [] [], out) # dels)"
    by (auto simp: list_all_iff)
  have b3: "bundles w3 = bundles w" using sweep_frame[OF s] b1 by simp
  have key: "(Namespace (RemoveFinalizer b fin), Name (RemoveFinalizer b fin))
               = (Namespace bu, Name bu)"
    using DeepCopy_fields(1,2)[OF dc] by (simp add: RemoveFinalizer_def)
  show ?thesis
  proof (cases s)
    case (Some e)
    with R' R have "r = Some (Err e)" "w' = w3" by simp_all
    moreover have "\<forall>ev\<in>set ((WList [] [], out) # dels). \<forall>e'. snd ev = Some e' \<longrightarrow> e' = e"
      using o Some by auto
    ultimately show ?thesis using sc b3 c3 c1 by auto
  next
    case None
    with R' R have r: "r = (case u of None \<Rightarrow> None | Some e \<Rightarrow> map_option Err (ic e))"
      and w': "w' = w4"
      by (simp_all split: option.splits)
    have allNone: "\<forall>ev\<in>set ((WList [] [], out) # dels). snd ev = None"
      using o None by (metis option.distinct(1) option.exhaust)
    have wk: "works w' = []"
      using sweep_success_empties[OF s[unfolded None]] clientUpdate_frame(1)[OF u] w' by simp
    have c4: "calls w' = calls w @ (BGet req, None) # (WList [] [], out) # dels
                           @ [(BUpdate (Namespace bu, Name bu), u)]"
      using clientUpdate_frame(4)[OF u] c3 c1 key w' by simp
    have bu: "u \<noteq> None \<longrightarrow> bundles w' = bundles w"
      using clientUpdate_frame(6)[OF u] b3 w' by simp
    from sc wk c4 allNone r bu show ?thesis by blast
  qed
qed

text \<open>
  What \<^verbatim>\<open>Reconcile\<close> returns after a Conflict on the update that removes the finalizer is
  what \<open>IgnoreConflict\<close> makes of the Conflict; the update is called once.
\<close>

lemma Reconcile_conflict_on_release:
  assumes "bundles w req = Some sb" and "\<not> IsZero (DeletionTimestamp sb)"
    and "Reconcile DeployFinalizer IgnoreConflict req w = (r, w')"
    and "calls w' = calls w @ evs"
    and "(BUpdate k, Some Conflict) \<in> set evs"
  shows "r = map_option Err (IgnoreConflict Conflict) \<and> length (filter (\<lambda>ev. isBUpdate (fst ev)) evs) = 1
         \<and> bundles w' = bundles w"
proof -
  obtain g w1 where g: "clientGet req w = (g, w1)" by (cases "clientGet req w")
  show ?thesis
  proof (cases g)
    case (Inl e)
    with Reconcile_Get_error[of req w e w1] g assms(3) have "w' = w1" by simp
    with clientGet_frame(4)[OF g] assms(4) have "evs = [(BGet req, Some e)]"
      using Inl by simp
    with assms(5) show ?thesis by simp
  next
    case (Inr bu)
    note g' = g[unfolded Inr]
    from clientGet_Inr[OF g'] assms(1) have d: "decode (heap w) sb = (bu, heap w1)" by simp
    have nz: "\<not> IsZero (DeletionTimestamp bu)" using decode_fields(5)[OF d] assms(2) by simp
    obtain b h where dc: "DeepCopy (heap w1) bu = (b, h)" by (cases "DeepCopy (heap w1) bu")
    show ?thesis
    proof (cases "DeployFinalizer \<in> set (Finalizers bu)")
      case False
      from Reconcile_released[OF g' nz dc False, of IgnoreConflict] assms(3)
      have "w' = w1\<lparr>heap := h\<rparr>" by simp
      with clientGet_frame(4)[OF g'] assms(4) have "evs = [(BGet req, None)]" by simp
      with assms(5) show ?thesis by simp
    next
      case True
      from Reconcile_deleting_calls[OF g' nz True assms(3)] obtain out dels where
        sc: "list_all (\<lambda>ev. isSweepCall (fst ev)) ((WList [] [], out) # dels)"
        and alt: "(\<exists>e. r = Some (Err e) \<and> bundles w' = bundles w
                     \<and> calls w' = calls w @ (BGet req, None) # (WList [] [], out) # dels
                     \<and> (\<forall>ev\<in>set ((WList [] [], out) # dels). \<forall>e'. snd ev = Some e' \<longrightarrow> e' = e))
                  \<or> (\<exists>u. works w' = []
                     \<and> calls w' = calls w @ (BGet req, None) # (WList [] [], out) # dels
                                    @ [(BUpdate (Namespace bu, Name bu), u)]
                     \<and> (\<forall>ev\<in>set ((WList [] [], out) # dels). snd ev = None)
                     \<and> r = (case u of None \<Rightarrow> None
                            | Some e \<Rightarrow> map_option Err (IgnoreConflict e))
                     \<and> (u \<noteq> None \<longrightarrow> bundles w' = bundles w))"
        by blast
      have nb: "\<not> isBUpdate (fst ev)" if "ev \<in> set ((WList [] [], out) # dels)" for ev
      proof -
        from sc that have "isSweepCall (fst ev)" by (auto simp: list_all_iff)
        then show ?thesis by (cases "fst ev") simp_all
      qed
      then have f0: "filter (\<lambda>ev. isBUpdate (fst ev)) ((WList [] [], out) # dels) = []"
        by (simp only: filter_empty_conv) blast
      from alt show ?thesis
      proof (elim disjE exE conjE)
        fix e
        assume c: "calls w' = calls w @ (BGet req, None) # (WList [] [], out) # dels"
        with assms(4) have "evs = (BGet req, None) # (WList [] [], out) # dels" by simp
        with assms(5) nb[of "(BUpdate k, Some Conflict)"] show ?thesis by auto
      next
        fix u
        assume c: "calls w' = calls w @ (BGet req, None) # (WList [] [], out) # dels
                             @ [(BUpdate (Namespace bu, Name bu), u)]"
          and r: "r = (case u of None \<Rightarrow> None
                       | Some e \<Rightarrow> map_option Err (IgnoreConflict e))"
          and b: "u \<noteq> None \<longrightarrow> bundles w' = bundles w"
        from c assms(4) have evs: "evs = (BGet req, None) # ((WList [] [], out) # dels)
                                     @ [(BUpdate (Namespace bu, Name bu), u)]" by simp
        from assms(5) nb[of "(BUpdate k, Some Conflict)"] have u: "u = Some Conflict"
          unfolding evs by auto
        from f0 have "filter (\<lambda>ev. isBUpdate (fst ev)) dels = []" by simp
        then have "length (filter (\<lambda>ev. isBUpdate (fst ev)) evs) = 1"
          unfolding evs by simp
        with r b u show ?thesis by simp
      qed
    qed
  qed
qed

section \<open>The claims\<close>

text \<open>
  C1. The claim: for every owner UID \<open>u\<close>, the sweep deletes exactly the ManifestWorks whose
  ownership label is \<open>u\<close> and leaves every other one untouched. The code builds the selector
  on the ownership label and lists without it. Evaluated on the scenario with the deletion
  of \<open>b1\<close> (UID \<open>u1\<close>) requested and a work store that holds one artifact of \<open>b1\<close> and two
  of \<open>b2\<close> (UID \<open>u2\<close>), no store call failing: the reconciliation of \<open>b1\<close> deletes all
  three artifacts, those of \<open>b2\<close> included, and returns no error.
\<close>

theorem sweep_deletes_artifacts_of_other_bundle:
  "stored_labels (ex_work ''b2'' ''east'' ''u2'') OwnedLabel = Some ''u2''
   \<and> stored_labels (ex_work ''b2'' ''west'' ''u2'') OwnedLabel = Some ''u2''
   \<and> fst (Reconcile ''fin'' Some (''default'', ''b1'')
         (ex_deleting [ex_work ''b1'' ''east'' ''u1'', ex_work ''b2'' ''east'' ''u2'',
                       ex_work ''b2'' ''west'' ''u2''] [])) = None
   \<and> calls (snd (Reconcile ''fin'' Some (''default'', ''b1'')
         (ex_deleting [ex_work ''b1'' ''east'' ''u1'', ex_work ''b2'' ''east'' ''u2'',
                       ex_work ''b2'' ''west'' ''u2''] [])))
     = [(BGet (''default'', ''b1''), None), (WList [] [], None),
        (WDelete ''east'' ''b1'', None), (WDelete ''east'' ''b2'', None),
        (WDelete ''west'' ''b2'', None), (BUpdate (''default'', ''b1''), None)]
   \<and> works (snd (Reconcile ''fin'' Some (''default'', ''b1'')
         (ex_deleting [ex_work ''b1'' ''east'' ''u1'', ex_work ''b2'' ''east'' ''u2'',
                       ex_work ''b2'' ''west'' ''u2''] []))) = []"
  by (simp add: eval_defs ex_deleting_def ex_defs)

text \<open>
  C2. The claim: the outcome of convergence for one target, a per-target error in
  particular, does not prevent the attempt for the next target. It fails on the scenario
  with the artifact of \<open>b1\<close> present on \<open>east\<close> and its update failing with a Conflict:
  \<^verbatim>\<open>scheduleBundle\<close> returns the Conflict after the two calls on \<open>east\<close> and makes no call on
  \<open>west\<close>.
\<close>

theorem scheduleBundle_error_skips_later_targets:
  "fst (scheduleBundle (ex_bundle ''b1'' ''u1'' (Some 0) [''fin''] None) ex_decision
         ((ex_world (ex_bundle ''b1'' ''u1'' (Some [PlacementLabel \<mapsto> ''p1'']) [''fin''] None)
             [ex_decision] [ex_work ''b1'' ''east'' ''u1''] [None, Some Conflict])
          \<lparr>heap := [[PlacementLabel \<mapsto> ''p1'']]\<rparr>))
     = Some (Err Conflict)
   \<and> calls (snd (scheduleBundle (ex_bundle ''b1'' ''u1'' (Some 0) [''fin''] None) ex_decision
         ((ex_world (ex_bundle ''b1'' ''u1'' (Some [PlacementLabel \<mapsto> ''p1'']) [''fin''] None)
             [ex_decision] [ex_work ''b1'' ''east'' ''u1''] [None, Some Conflict])
          \<lparr>heap := [[PlacementLabel \<mapsto> ''p1'']]\<rparr>)))
     = [(WGet ''east'' ''b1'', None), (WUpdate ''east'' ''b1'', Some Conflict)]"
  by (simp add: scheduleBundle_def scheduleBundle_body_def generateManifest_def workGet_def
      workUpdate_def nextFault_def record_call_def klogInfof_def decode_def DeepCopy_def
      allocMap_def readMap_def hasKey_def Let_def ex_defs)

text \<open>
  C2 as amended: \<^verbatim>\<open>scheduleBundle\<close> goes through the targets in the order of the decision.
  A pass that returns no error and has created nothing has read and updated the
  ManifestWork of every target; a pass that returns an error has read and updated the
  ManifestWorks of the targets before some target, failed with that error in the last of
  its calls on that target, and has made no call on a later target.
\<close>

theorem scheduleBundle_processing:
  assumes "Labels b = Some a" and "scheduleBundle b dec w = (r, w')"
    and "calls w' = calls w @ evs"
  shows "(r = None \<and> list_all (\<lambda>ev. \<not> isCreate (fst ev)) evs \<longrightarrow>
            evs = concat (map (converged (Name b)) (pdDecisions dec)))
         \<and> (\<forall>e. r = Some (Err e) \<longrightarrow>
               (\<exists>k tl. k < length (pdDecisions dec)
                  \<and> evs = concat (map (converged (Name b)) (take k (pdDecisions dec))) @ tl
                  \<and> failsAt (Name b) (ClusterName (pdDecisions dec ! k)) tl e))"
proof -
  let ?ds = "pdDecisions dec"
  from assms(2) have l: "scheduleBundle_loop b ?ds w = (r, w')" by (simp add: scheduleBundle_def)
  from scheduleBundle_loop_calls[OF assms(1) l] assms(3) obtain k tl where
    k: "k \<le> length ?ds"
    and evs: "evs = concat (map (converged (Name b)) (take k ?ds)) @ tl"
    and e: "(k = length ?ds \<and> tl = [] \<and> r = None)
            \<or> (k < length ?ds \<and> returnsAt (Name b) (ClusterName (?ds ! k)) tl r)"
    by auto
  have "evs = concat (map (converged (Name b)) ?ds)"
    if "r = None" and nc: "list_all (\<lambda>ev. \<not> isCreate (fst ev)) evs"
  proof -
    from nc evs have "list_all (\<lambda>ev. \<not> isCreate (fst ev)) tl" by simp
    with that(1) have "\<not> returnsAt (Name b) (ClusterName (?ds ! k)) tl r"
      by (auto simp: returnsAt_def)
    with e evs show ?thesis by simp
  qed
  moreover have "\<exists>k tl. k < length ?ds
                  \<and> evs = concat (map (converged (Name b)) (take k ?ds)) @ tl
                  \<and> failsAt (Name b) (ClusterName (?ds ! k)) tl e'"
    if "r = Some (Err e')" for e'
  proof -
    from e that have k': "k < length ?ds"
      and ra: "returnsAt (Name b) (ClusterName (?ds ! k)) tl (Some (Err e'))"
      by auto
    from ra have "failsAt (Name b) (ClusterName (?ds ! k)) tl e'"
      by (auto simp: returnsAt_def failsAt_def map_option_case split: option.splits)
    with k' evs show ?thesis by blast
  qed
  ultimately show ?thesis by blast
qed

theorem scheduleBundle_processing_witness:
  "Labels (ex_bundle ''b1'' ''u1'' (Some (0::nat)) [''fin''] None) = Some 0
   \<and> fst (scheduleBundle (ex_bundle ''b1'' ''u1'' (Some 0) [''fin''] None) ex_decision
         ((ex_world (ex_bundle ''b1'' ''u1'' (Some [PlacementLabel \<mapsto> ''p1'']) [''fin''] None)
             [ex_decision] [ex_work ''b1'' ''east'' ''u0'', ex_work ''b1'' ''west'' ''u0''] [])
          \<lparr>heap := [[PlacementLabel \<mapsto> ''p1'']]\<rparr>)) = None
   \<and> calls (snd (scheduleBundle (ex_bundle ''b1'' ''u1'' (Some 0) [''fin''] None) ex_decision
         ((ex_world (ex_bundle ''b1'' ''u1'' (Some [PlacementLabel \<mapsto> ''p1'']) [''fin''] None)
             [ex_decision] [ex_work ''b1'' ''east'' ''u0'', ex_work ''b1'' ''west'' ''u0''] [])
          \<lparr>heap := [[PlacementLabel \<mapsto> ''p1'']]\<rparr>)))
     = [(WGet ''east'' ''b1'', None), (WUpdate ''east'' ''b1'', None),
        (WGet ''west'' ''b1'', None), (WUpdate ''west'' ''b1'', None)]
   \<and> [(WGet ''east'' ''b1'', None), (WUpdate ''east'' ''b1'', None),
        (WGet ''west'' ''b1'', None), (WUpdate ''west'' ''b1'', None)]
     = concat (map (converged ''b1'') (pdDecisions ex_decision))"
proof -
  let ?b = "ex_bundle ''b1'' ''u1'' (Some (0::nat)) [''fin''] None"
  let ?w = "(ex_world (ex_bundle ''b1'' ''u1'' (Some [PlacementLabel \<mapsto> ''p1'']) [''fin''] None)
             [ex_decision] [ex_work ''b1'' ''east'' ''u0'', ex_work ''b1'' ''west'' ''u0''] [])
          \<lparr>heap := [[PlacementLabel \<mapsto> ''p1'']]\<rparr>"
  let ?evs = "[(WGet ''east'' ''b1'', None), (WUpdate ''east'' ''b1'', None),
        (WGet ''west'' ''b1'', None), (WUpdate ''west'' ''b1'', None)]"
  have l: "Labels ?b = Some 0" by (simp add: ex_bundle_def)
  have run: "fst (scheduleBundle ?b ex_decision ?w) = None
             \<and> calls (snd (scheduleBundle ?b ex_decision ?w)) = ?evs"
    by (simp add: eval_defs ex_defs)
  have c: "calls (snd (scheduleBundle ?b ex_decision ?w)) = calls ?w @ ?evs"
    using run by (simp add: ex_world_def)
  have eq: "scheduleBundle ?b ex_decision ?w = (None, snd (scheduleBundle ?b ex_decision ?w))"
    using run by (simp add: prod_eq_iff)
  have n: "Name ?b = ''b1''" by (simp add: ex_bundle_def)
  from scheduleBundle_processing[OF l eq c] have
    "?evs = concat (map (converged (Name ?b)) (pdDecisions ex_decision))"
    by simp
  with run l n show ?thesis by simp
qed

text \<open>
  The pass also returns, without an error, after it has created the ManifestWork of a
  target: on the scenario with an empty work store it creates the artifact on \<open>east\<close> and
  makes no call on \<open>west\<close>.
\<close>

lemma scheduleBundle_returns_after_create:
  "fst (scheduleBundle (ex_bundle ''b1'' ''u1'' (Some 0) [''fin''] None) ex_decision
         ((ex_world (ex_bundle ''b1'' ''u1'' (Some [PlacementLabel \<mapsto> ''p1'']) [''fin''] None)
             [ex_decision] [] [])
          \<lparr>heap := [[PlacementLabel \<mapsto> ''p1'']]\<rparr>)) = None
   \<and> calls (snd (scheduleBundle (ex_bundle ''b1'' ''u1'' (Some 0) [''fin''] None) ex_decision
         ((ex_world (ex_bundle ''b1'' ''u1'' (Some [PlacementLabel \<mapsto> ''p1'']) [''fin''] None)
             [ex_decision] [] [])
          \<lparr>heap := [[PlacementLabel \<mapsto> ''p1'']]\<rparr>)))
     = [(WGet ''east'' ''b1'', Some NotFound), (WCreate ''east'' ''b1'', None)]
   \<and> map Namespace (works (snd (scheduleBundle (ex_bundle ''b1'' ''u1'' (Some 0) [''fin''] None)
         ex_decision
         ((ex_world (ex_bundle ''b1'' ''u1'' (Some [PlacementLabel \<mapsto> ''p1'']) [''fin''] None)
             [ex_decision] [] [])
          \<lparr>heap := [[PlacementLabel \<mapsto> ''p1'']]\<rparr>)))) = [''east'']"
  by (simp add: scheduleBundle_def scheduleBundle_body_def generateManifest_def workGet_def
      workCreate_def nextFault_def record_call_def klogInfof_def encode_def
      readMap_def hasKey_def Let_def ex_defs)

text \<open>
  C3. The claim: when the placement reference of a Bundle matches no PlacementDecision, the
  reconciliation logs the condition, creates nothing and returns success. It fails on the
  bundle \<open>b1\<close> of the scenario with no PlacementDecision in the store: the reconciliation
  returns the error of \<^verbatim>\<open>getPlacementDecision\<close>, and its log lines are those of any bundle
  with a placement label.
\<close>

theorem Reconcile_unresolved_placement_returns_error:
  "fst (Reconcile ''fin'' Some (''default'', ''b1'')
         (ex_world (ex_bundle ''b1'' ''u1'' (Some [PlacementLabel \<mapsto> ''p1'']) [''fin''] None)
            [] [] []))
     = Some (Err (Errorf ''Could not find placement decision for placement p1 ''))
   \<and> klog (snd (Reconcile ''fin'' Some (''default'', ''b1'')
         (ex_world (ex_bundle ''b1'' ''u1'' (Some [PlacementLabel \<mapsto> ''p1'']) [''fin''] None)
            [] [] [])))
     = [LogPlacementLabelFound ''p1'' ''b1'', LogNamespace ''default'']"
  by (simp add: Reconcile_def clientGet_def nextFault_def record_call_def decode_def
      allocMap_def readMap_def DeepCopy_def IsZero_def containsString_def Let_def
      reconcilePlacement_def getPlacementLabel_def getPlacementDecision_def
      listPlacementDecisions_def NewRequirement_def NewSelector_def Add_def klogInfof_def
      ex_defs)

text \<open>
  C3 as amended: when deletion is not requested for a Bundle and its placement reference
  matches no PlacementDecision, a reconciliation that reads the Bundle returns an error to
  its caller and leaves the work store as it was; when no store call fails, the error is
  "Could not find placement decision for placement \<open>p\<close> ".
\<close>

theorem Reconcile_unresolved_placement:
  assumes "bundles w req = Some sb" and "fst (nextFault w) = None"
    and "IsZero (DeletionTimestamp sb)"
    and "stored_labels sb PlacementLabel = Some p"
    and "filter (\<lambda>d. inNamespace (fst req) (pdNamespace d) \<and> pdLabels d PlacementLabel = Some p)
           (placementDecisions w) = []"
  shows "(\<exists>e. fst (Reconcile DeployFinalizer IgnoreConflict req w) = Some (Err e))
         \<and> works (snd (Reconcile DeployFinalizer IgnoreConflict req w)) = works w
         \<and> (faults w = [] \<and> req = (Namespace sb, Name sb) \<longrightarrow>
              fst (Reconcile DeployFinalizer IgnoreConflict req w) =
                Some (Err (Errorf (''Could not find placement decision for placement ''
                                     @ p @ '' ''))))"
proof -
  let ?R = "Reconcile DeployFinalizer IgnoreConflict req w"
  let ?msg = "Errorf (''Could not find placement decision for placement '' @ p @ '' '')"
  from clientGet_ok[OF assms(1,2)] obtain bu w1 where
    g: "clientGet req w = (Inr bu, w1)" and d: "decode (heap w) sb = (bu, heap w1)"
    by blast
  have z: "IsZero (DeletionTimestamp bu)" using decode_fields(5)[OF d] assms(3) by simp
  obtain b h where dc: "DeepCopy (heap w1) bu = (b, h)" by (cases "DeepCopy (heap w1) bu")
  from DeepCopy_ext[OF dc] obtain ext where h: "h = heap w1 @ ext" ..
  let ?w2 = "w1\<lparr>heap := h\<rparr>"
  have lab: "getPlacementLabel h bu = Some p"
    using decode_getPlacementLabel[OF d assms(4)] h by simp
  have pd1: "placementDecisions w1 = placementDecisions w"
    and wk1: "works w1 = works w" and f1: "faults w1 = tl (faults w)"
    and b1: "bundles w1 = bundles w"
    using clientGet_frame[OF g] by simp_all
  show ?thesis
  proof (cases "DeployFinalizer \<in> set (Finalizers bu)")
    case True
    have R: "?R = reconcilePlacement bu req ?w2" by (rule Reconcile_active[OF g z dc True])
    have nomatch: "filter (\<lambda>d. inNamespace (fst req) (pdNamespace d)
                     \<and> pdLabels d PlacementLabel = Some p) (placementDecisions ?w2) = []"
      using assms(5) pd1 by simp
    have lab2: "getPlacementLabel (heap ?w2) bu = Some p" using lab by simp
    have nf: "faults w = [] \<Longrightarrow> fst (nextFault ?w2) = None"
      using f1 by (simp add: nextFault_def)
    from reconcilePlacement_unresolved[OF lab2 nomatch] R wk1 nf
    show ?thesis by auto
  next
    case False
    obtain u w3 where u: "clientUpdate (AddFinalizer b DeployFinalizer) ?w2 = (u, w3)"
      by (cases "clientUpdate (AddFinalizer b DeployFinalizer) ?w2")
    note R = Reconcile_pending[OF g z dc False u, of IgnoreConflict]
    note uf = clientUpdate_frame[OF u]
    show ?thesis
    proof (cases u)
      case (Some e)
      have key: "(Namespace (AddFinalizer b DeployFinalizer), Name (AddFinalizer b DeployFinalizer))
                   = (Namespace sb, Name sb)"
        using DeepCopy_fields(1,2)[OF dc] decode_fields(1,2)[OF d]
        by (simp add: AddFinalizer_def)
      have neg: "\<not> (faults w = [] \<and> req = (Namespace sb, Name sb))"
      proof
        assume a: "faults w = [] \<and> req = (Namespace sb, Name sb)"
        then have "faults ?w2 = []" using f1 by simp
        moreover have "bundles ?w2 (Namespace sb, Name sb) = Some sb"
          using a b1 assms(1) by simp
        ultimately have "fst (clientUpdate (AddFinalizer b DeployFinalizer) ?w2) = None"
          unfolding clientUpdate_def key Let_def
          by (simp add: nextFault_def)
        with u Some show False by simp
      qed
      from R Some have "?R = (Some (Err e), w3)" by simp
      with uf(1) wk1 neg show ?thesis by auto
    next
      case None
      have R': "?R = reconcilePlacement bu req w3" using R None by simp
      have nomatch: "filter (\<lambda>d. inNamespace (fst req) (pdNamespace d)
                       \<and> pdLabels d PlacementLabel = Some p) (placementDecisions w3) = []"
        using assms(5) pd1 uf(3) by simp
      have lab3: "getPlacementLabel (heap w3) bu = Some p" using lab uf(2) by simp
      have nf: "faults w = [] \<Longrightarrow> fst (nextFault w3) = None"
        using f1 uf(5) by (simp add: nextFault_def)
      from reconcilePlacement_unresolved[OF lab3 nomatch] R' wk1 uf(1) nf
      show ?thesis by auto
    qed
  qed
qed

theorem Reconcile_unresolved_placement_witness:
  "bundles (ex_world (ex_bundle ''b1'' ''u1'' (Some [PlacementLabel \<mapsto> ''p1'']) [] None)
              [ex_decision\<lparr>pdLabels := [PlacementLabel \<mapsto> ''p2'']\<rparr>] [] [])
       (''default'', ''b1'')
     = Some (ex_bundle ''b1'' ''u1'' (Some [PlacementLabel \<mapsto> ''p1'']) [] None)
   \<and> fst (Reconcile ''fin'' Some (''default'', ''b1'')
        (ex_world (ex_bundle ''b1'' ''u1'' (Some [PlacementLabel \<mapsto> ''p1'']) [] None)
              [ex_decision\<lparr>pdLabels := [PlacementLabel \<mapsto> ''p2'']\<rparr>] [] []))
     = Some (Err (Errorf ''Could not find placement decision for placement p1 ''))
   \<and> works (snd (Reconcile ''fin'' Some (''default'', ''b1'')
        (ex_world (ex_bundle ''b1'' ''u1'' (Some [PlacementLabel \<mapsto> ''p1'']) [] None)
              [ex_decision\<lparr>pdLabels := [PlacementLabel \<mapsto> ''p2'']\<rparr>] [] []))) = []"
  using Reconcile_unresolved_placement
    [of "ex_world (ex_bundle ''b1'' ''u1'' (Some [PlacementLabel \<mapsto> ''p1'']) [] None)
              [ex_decision\<lparr>pdLabels := [PlacementLabel \<mapsto> ''p2'']\<rparr>] [] []"
        "(''default'', ''b1'')"
        "ex_bundle ''b1'' ''u1'' (Some [PlacementLabel \<mapsto> ''p1'']) [] None"
        "''p1''" "''fin''" Some]
  by (simp add: ex_world_def ex_bundle_def ex_decision_def nextFault_def IsZero_def
      stored_labels_def inNamespace_def PlacementLabel_def)

text \<open>
  C4. The claim: \<^verbatim>\<open>generateManifest(b, c)\<close> is free of side effects and leaves \<open>b\<close>, its
  labels map included, unchanged. It fails on the bundle of the scenario: after the call the
  bundle's labels map holds the ownership label as well.
\<close>

theorem generateManifest_changes_bundle_labels:
  "generateManifest [[PlacementLabel \<mapsto> ''p1'']] (ex_bundle ''b1'' ''u1'' (Some 0) [] None) ''east''
     = Inr ((ex_bundle ''b1'' ''u1'' (Some 0) [] None)
              \<lparr>Kind := ''ManifestWork'', APIVersion := ''v1'', Namespace := ''east'', UID := []\<rparr>,
            [[PlacementLabel \<mapsto> ''p1'', OwnedLabel \<mapsto> ''u1'']])
   \<and> readMap [[PlacementLabel \<mapsto> ''p1'', OwnedLabel \<mapsto> ''u1'']]
         (Labels (ex_bundle ''b1'' ''u1'' (Some 0) [] None))
       \<noteq> readMap [[PlacementLabel \<mapsto> ''p1'']] (Labels (ex_bundle ''b1'' ''u1'' (Some 0) [] None))"
proof -
  have "[PlacementLabel \<mapsto> ''p1'', OwnedLabel \<mapsto> ''u1''] OwnedLabel
          \<noteq> [PlacementLabel \<mapsto> ''p1''] OwnedLabel"
    by (simp add: PlacementLabel_def OwnedLabel_def)
  then have "[PlacementLabel \<mapsto> ''p1'', OwnedLabel \<mapsto> ''u1''] \<noteq> [PlacementLabel \<mapsto> ''p1'']"
    by metis
  then show ?thesis
    by (simp add: generateManifest_def ex_bundle_def readMap_def)
qed

text \<open>
  C4 as amended: for a bundle \<open>b\<close> whose labels map is not nil, \<^verbatim>\<open>generateManifest(b, c)\<close>
  returns an artifact with the name of \<open>b\<close>, the namespace \<open>c\<close>, the spec of \<open>b\<close>, the
  annotations map of \<open>b\<close> and the labels map of \<open>b\<close> itself, into which it has written the
  ownership label with the UID of \<open>b\<close>; no other map changes, and a second call returns the
  same artifact and changes nothing.
\<close>

theorem generateManifest_artifact:
  assumes "Labels b = Some a" and "a < length h"
  shows "\<exists>m h'. generateManifest h b c = Inr (m, h')
           \<and> Name m = Name b \<and> Namespace m = c \<and> Spec m = Spec b
           \<and> Labels m = Labels b \<and> Annotations m = Annotations b
           \<and> readMap h' (Labels m) = Some ((h ! a)(OwnedLabel \<mapsto> UID b))
           \<and> (Annotations b \<noteq> Labels b \<longrightarrow> readMap h' (Annotations m) = readMap h (Annotations b))
           \<and> length h' = length h \<and> (\<forall>i. i \<noteq> a \<longrightarrow> h' ! i = h ! i)
           \<and> generateManifest h' b c = Inr (m, h')"
  using assms
  by (auto simp: generateManifest_def readMap_def split: option.splits)

theorem generateManifest_artifact_witness:
  "Labels (ex_bundle ''b1'' ''u1'' (Some (0::nat)) [] None) = Some 0
   \<and> 0 < length [[PlacementLabel \<mapsto> ''p1''], [''note'' \<mapsto> ''n'']]
   \<and> (\<exists>m h'. generateManifest [[PlacementLabel \<mapsto> ''p1''], [''note'' \<mapsto> ''n'']]
                 ((ex_bundle ''b1'' ''u1'' (Some 0) [] None)\<lparr>Annotations := Some 1\<rparr>) ''east'' = Inr (m, h')
           \<and> Name m = ''b1'' \<and> Namespace m = ''east'' \<and> Spec m = \<lparr>Manifests = [''cm1'']\<rparr>
           \<and> readMap h' (Labels m) = Some [PlacementLabel \<mapsto> ''p1'', OwnedLabel \<mapsto> ''u1'']
           \<and> readMap h' (Annotations m) = Some [''note'' \<mapsto> ''n''])"
  using generateManifest_artifact
    [of "(ex_bundle ''b1'' ''u1'' (Some 0) [] None)\<lparr>Annotations := Some 1\<rparr>" 0
        "[[PlacementLabel \<mapsto> ''p1''], [''note'' \<mapsto> ''n'']]" "''east''"]
  by (auto simp: ex_bundle_def readMap_def)

text \<open>
  C5. A reconciliation that reads a Bundle with deletion requested and the finalizer
  present first runs the sweep (its calls follow the read of the Bundle). If a call of the
  sweep fails, \<^verbatim>\<open>Reconcile\<close> returns that error and leaves the Bundle store as it was, so the
  Bundle keeps its finalizer. The Bundle store changes only after a sweep in which no call
  failed and which left the work store empty; as long as a ManifestWork remains, the Bundle
  is unchanged in its store and \<^verbatim>\<open>Reconcile\<close> returns an error.
\<close>

theorem Reconcile_deleting_sweeps_before_release:
  assumes "bundles w req = Some sb" and "fst (nextFault w) = None"
    and "\<not> IsZero (DeletionTimestamp sb)"
    and "containsString (Finalizers sb) DeployFinalizer"
    and "Reconcile DeployFinalizer IgnoreConflict req w = (r, w')"
    and "calls w' = calls w @ evs"
  shows "(\<exists>out rest. evs = (BGet req, None) # (WList [] [], out) # rest)
         \<and> (\<forall>c e. (c, Some e) \<in> set evs \<and> isSweepCall c \<longrightarrow>
               r = Some (Err e) \<and> bundles w' = bundles w)
         \<and> (works w' \<noteq> [] \<longrightarrow> bundles w' = bundles w \<and> (\<exists>e. r = Some (Err e)))
         \<and> (bundles w' \<noteq> bundles w \<longrightarrow>
               works w' = [] \<and> (\<forall>c out. (c, out) \<in> set evs \<and> isSweepCall c \<longrightarrow> out = None))"
proof -
  from clientGet_ok[OF assms(1,2)] obtain bu w1 where
    g: "clientGet req w = (Inr bu, w1)" and d: "decode (heap w) sb = (bu, heap w1)"
    by blast
  have nz: "\<not> IsZero (DeletionTimestamp bu)" using decode_fields(5)[OF d] assms(3) by simp
  have fin: "DeployFinalizer \<in> set (Finalizers bu)"
    using decode_fields(4)[OF d] assms(4) by (simp add: containsString_def)
  from Reconcile_deleting_calls[OF g nz fin assms(5)] obtain out dels where
    sc: "list_all (\<lambda>ev. isSweepCall (fst ev)) ((WList [] [], out) # dels)"
    and alt: "(\<exists>e. r = Some (Err e) \<and> bundles w' = bundles w
                 \<and> calls w' = calls w @ (BGet req, None) # (WList [] [], out) # dels
                 \<and> (\<forall>ev\<in>set ((WList [] [], out) # dels). \<forall>e'. snd ev = Some e' \<longrightarrow> e' = e))
              \<or> (\<exists>u. works w' = []
                 \<and> calls w' = calls w @ (BGet req, None) # (WList [] [], out) # dels
                                @ [(BUpdate (Namespace bu, Name bu), u)]
                 \<and> (\<forall>ev\<in>set ((WList [] [], out) # dels). snd ev = None)
                 \<and> r = (case u of None \<Rightarrow> None | Some e \<Rightarrow> map_option Err (IgnoreConflict e))
                 \<and> (u \<noteq> None \<longrightarrow> bundles w' = bundles w))"
    by blast
  from alt show ?thesis
  proof (elim disjE exE conjE)
    fix e
    assume r: "r = Some (Err e)" and b: "bundles w' = bundles w"
      and c: "calls w' = calls w @ (BGet req, None) # (WList [] [], out) # dels"
      and o: "\<forall>ev\<in>set ((WList [] [], out) # dels). \<forall>e'. snd ev = Some e' \<longrightarrow> e' = e"
    from c assms(6) have evs: "evs = (BGet req, None) # (WList [] [], out) # dels" by simp
    have "e' = e" if "(c, Some e') \<in> set evs" for c e'
      using that o unfolding evs by fastforce
    with r b evs show ?thesis by auto
  next
    fix u
    assume wk: "works w' = []"
      and c: "calls w' = calls w @ (BGet req, None) # (WList [] [], out) # dels
                           @ [(BUpdate (Namespace bu, Name bu), u)]"
      and o: "\<forall>ev\<in>set ((WList [] [], out) # dels). snd ev = None"
    from c assms(6) have evs: "evs = (BGet req, None) # (WList [] [], out) # dels
                                 @ [(BUpdate (Namespace bu, Name bu), u)]" by simp
    have "out' = None" if "(c, out') \<in> set evs" and "isSweepCall c" for c out'
      using that o unfolding evs by fastforce
    with wk evs show ?thesis by fastforce
  qed
qed

theorem Reconcile_deleting_sweeps_before_release_witness:
  "bundles (ex_deleting [ex_work ''b1'' ''east'' ''u1'', ex_work ''b1'' ''west'' ''u1'']
              [None, None, None, Some TransportFailure]) (''default'', ''b1'')
     = Some (ex_bundle ''b1'' ''u1'' (Some [PlacementLabel \<mapsto> ''p1'']) [''fin''] (Some 1))
   \<and> fst (nextFault (ex_deleting [ex_work ''b1'' ''east'' ''u1'', ex_work ''b1'' ''west'' ''u1'']
              [None, None, None, Some TransportFailure])) = None
   \<and> \<not> IsZero (DeletionTimestamp
          (ex_bundle ''b1'' ''u1'' (Some [PlacementLabel \<mapsto> ''p1'']) [''fin''] (Some 1)))
   \<and> containsString (Finalizers
          (ex_bundle ''b1'' ''u1'' (Some [PlacementLabel \<mapsto> ''p1'']) [''fin''] (Some 1))) ''fin''
   \<and> calls (snd (Reconcile ''fin'' Some (''default'', ''b1'')
        (ex_deleting [ex_work ''b1'' ''east'' ''u1'', ex_work ''b1'' ''west'' ''u1'']
              [None, None, None, Some TransportFailure])))
     = [(BGet (''default'', ''b1''), None), (WList [] [], None),
        (WDelete ''east'' ''b1'', None), (WDelete ''west'' ''b1'', Some TransportFailure)]
   \<and> fst (Reconcile ''fin'' Some (''default'', ''b1'')
        (ex_deleting [ex_work ''b1'' ''east'' ''u1'', ex_work ''b1'' ''west'' ''u1'']
              [None, None, None, Some TransportFailure])) = Some (Err TransportFailure)
   \<and> bundles (snd (Reconcile ''fin'' Some (''default'', ''b1'')
        (ex_deleting [ex_work ''b1'' ''east'' ''u1'', ex_work ''b1'' ''west'' ''u1'']
              [None, None, None, Some TransportFailure])))
     = bundles (ex_deleting [ex_work ''b1'' ''east'' ''u1'', ex_work ''b1'' ''west'' ''u1'']
              [None, None, None, Some TransportFailure])"
proof -
  let ?w = "ex_deleting [ex_work ''b1'' ''east'' ''u1'', ex_work ''b1'' ''west'' ''u1'']
              [None, None, None, Some TransportFailure]"
  let ?sb = "ex_bundle ''b1'' ''u1'' (Some [PlacementLabel \<mapsto> ''p1'']) [''fin''] (Some (1::nat))"
  let ?req = "(''default'', ''b1'')"
  let ?evs = "[(BGet ?req, None), (WList [] [], None),
        (WDelete ''east'' ''b1'', None), (WDelete ''west'' ''b1'', Some TransportFailure)]"
  let ?R = "Reconcile ''fin'' Some ?req ?w"
  have h1: "bundles ?w ?req = Some ?sb"
    by (simp add: ex_deleting_def ex_world_def ex_bundle_def)
  have h2: "fst (nextFault ?w) = None"
    by (simp add: ex_deleting_def ex_world_def nextFault_def)
  have h3: "\<not> IsZero (DeletionTimestamp ?sb)" by (simp add: ex_bundle_def IsZero_def)
  have h4: "containsString (Finalizers ?sb) ''fin''"
    by (simp add: ex_bundle_def containsString_def)
  have c: "calls (snd ?R) = ?evs"
    by (simp add: eval_defs ex_deleting_def ex_defs)
  have h5: "?R = (fst ?R, snd ?R)" by simp
  have h6: "calls (snd ?R) = calls ?w @ ?evs"
    using c by (simp add: ex_deleting_def ex_world_def)
  from Reconcile_deleting_sweeps_before_release[OF h1 h2 h3 h4 h5 h6]
  have "\<forall>c e. (c, Some e) \<in> set ?evs \<and> isSweepCall c \<longrightarrow>
          fst ?R = Some (Err e) \<and> bundles (snd ?R) = bundles ?w"
    by (elim conjE)
  then have "fst ?R = Some (Err TransportFailure) \<and> bundles (snd ?R) = bundles ?w"
    by (elim allE[of _ "WDelete ''west'' ''b1''"] allE[of _ TransportFailure]) simp
  with h1 h2 h3 h4 c show ?thesis by simp
qed

text \<open>
  C6. With \<open>IgnoreConflict\<close> as the spec describes it: when the update that removes the
  finalizer of a Bundle under deletion fails with a Conflict, \<^verbatim>\<open>Reconcile\<close> returns the
  Conflict to its caller, has made that one update call only, and leaves the Bundle store
  as it was.
\<close>

theorem Reconcile_conflict_on_release_is_returned:
  assumes "bundles w req = Some sb" and "\<not> IsZero (DeletionTimestamp sb)"
    and "Reconcile DeployFinalizer IgnoreConflict_spec req w = (r, w')"
    and "calls w' = calls w @ evs"
    and "(BUpdate k, Some Conflict) \<in> set evs"
  shows "r = Some (Err Conflict) \<and> length (filter (\<lambda>ev. isBUpdate (fst ev)) evs) = 1
         \<and> bundles w' = bundles w"
  using Reconcile_conflict_on_release[OF assms]
  by (simp add: IgnoreConflict_spec_def)

theorem Reconcile_conflict_on_release_is_returned_witness:
  "bundles (ex_deleting [] [None, None, Some Conflict]) (''default'', ''b1'')
     = Some (ex_bundle ''b1'' ''u1'' (Some [PlacementLabel \<mapsto> ''p1'']) [''fin''] (Some 1))
   \<and> \<not> IsZero (DeletionTimestamp
          (ex_bundle ''b1'' ''u1'' (Some [PlacementLabel \<mapsto> ''p1'']) [''fin''] (Some 1)))
   \<and> calls (snd (Reconcile ''fin'' IgnoreConflict_spec (''default'', ''b1'')
        (ex_deleting [] [None, None, Some Conflict])))
     = [(BGet (''default'', ''b1''), None), (WList [] [], None),
        (BUpdate (''default'', ''b1''), Some Conflict)]
   \<and> fst (Reconcile ''fin'' IgnoreConflict_spec (''default'', ''b1'')
        (ex_deleting [] [None, None, Some Conflict])) = Some (Err Conflict)"
proof -
  let ?w = "ex_deleting [] [None, None, Some Conflict]"
  let ?sb = "ex_bundle ''b1'' ''u1'' (Some [PlacementLabel \<mapsto> ''p1'']) [''fin''] (Some (1::nat))"
  let ?req = "(''default'', ''b1'')"
  let ?evs = "[(BGet ?req, None), (WList [] [], None), (BUpdate ?req, Some Conflict)]"
  let ?R = "Reconcile ''fin'' IgnoreConflict_spec ?req ?w"
  have h1: "bundles ?w ?req = Some ?sb"
    by (simp add: ex_deleting_def ex_world_def ex_bundle_def)
  have h2: "\<not> IsZero (DeletionTimestamp ?sb)" by (simp add: ex_bundle_def IsZero_def)
  have c: "calls (snd ?R) = ?evs"
    by (simp add: eval_defs ex_deleting_def ex_defs)
  have h3: "?R = (fst ?R, snd ?R)" by simp
  have h4: "calls (snd ?R) = calls ?w @ ?evs"
    using c by (simp add: ex_deleting_def ex_world_def)
  have h5: "(BUpdate ?req, Some Conflict) \<in> set ?evs" by simp
  from Reconcile_conflict_on_release_is_returned[OF h1 h2 h3 h4 h5]
  have "fst ?R = Some (Err Conflict)" by (elim conjE)
  with h1 h2 c show ?thesis by simp
qed

text \<open>
  C7. For a Bundle whose manifest list is empty, a reconciliation event creates no
  ManifestWork, whatever its placement label and whatever the placement decisions are:
  every ManifestWork in the store after the event was there before it, and the event makes
  no create call and no update call on the work store.
\<close>

theorem Reconcile_empty_bundle_creates_nothing:
  assumes "bundles w req = Some sb" and "Manifests (Spec sb) = []"
  shows "set (works (snd (Reconcile DeployFinalizer IgnoreConflict req w))) \<subseteq> set (works w)
         \<and> (\<exists>evs. calls (snd (Reconcile DeployFinalizer IgnoreConflict req w)) = calls w @ evs
               \<and> list_all (\<lambda>ev. \<not> writesWork (fst ev)) evs)"
proof -
  let ?R = "Reconcile DeployFinalizer IgnoreConflict req w"
  obtain g w1 where g: "clientGet req w = (g, w1)" by (cases "clientGet req w")
  note q1 = quiet_clientGet[OF g]
  have "quiet w (snd ?R)"
  proof (cases g)
    case (Inl e)
    with g q1 show ?thesis by (simp add: Reconcile_Get_error)
  next
    case (Inr bu)
    note g' = g[unfolded Inr]
    from clientGet_Inr[OF g'] assms(1) have d: "decode (heap w) sb = (bu, heap w1)" by simp
    have empty: "Manifests (Spec bu) = []" using decode_fields(6)[OF d] assms(2) by simp
    obtain b h where dc: "DeepCopy (heap w1) bu = (b, h)"
      by (cases "DeepCopy (heap w1) bu")
    let ?w2 = "w1\<lparr>heap := h\<rparr>"
    have q2: "quiet w ?w2" using q1 by (simp add: quiet_def)
    show ?thesis
    proof (cases "IsZero (DeletionTimestamp bu)")
      case True
      show ?thesis
      proof (cases "DeployFinalizer \<in> set (Finalizers bu)")
        case True
        obtain r w' where p: "reconcilePlacement bu req ?w2 = (r, w')"
          by (cases "reconcilePlacement bu req ?w2")
        from quiet_reconcilePlacement_empty[OF empty p] q2 have "quiet w w'"
          by (blast intro: quiet_trans)
        with Reconcile_active[OF g' \<open>IsZero (DeletionTimestamp bu)\<close> dc True] p
        show ?thesis by simp
      next
        case False
        obtain u w3 where u: "clientUpdate (AddFinalizer b DeployFinalizer) ?w2 = (u, w3)"
          by (cases "clientUpdate (AddFinalizer b DeployFinalizer) ?w2")
        have q3: "quiet w w3" using quiet_clientUpdate[OF u] q2 by (blast intro: quiet_trans)
        obtain r w' where p: "reconcilePlacement bu req w3 = (r, w')"
          by (cases "reconcilePlacement bu req w3")
        from quiet_reconcilePlacement_empty[OF empty p] q3 have "quiet w w'"
          by (blast intro: quiet_trans)
        with Reconcile_pending[OF g' \<open>IsZero (DeletionTimestamp bu)\<close> dc False u] p q3
        show ?thesis by (cases u) simp_all
      qed
    next
      case False
      show ?thesis
      proof (cases "DeployFinalizer \<in> set (Finalizers bu)")
        case True
        obtain s w3 where s: "deleteAllChildManifests b ?w2 = (s, w3)"
          by (cases "deleteAllChildManifests b ?w2")
        obtain u w4 where u: "clientUpdate (RemoveFinalizer b DeployFinalizer) w3 = (u, w4)"
          by (cases "clientUpdate (RemoveFinalizer b DeployFinalizer) w3")
        have q3: "quiet w w3" using quiet_sweep[OF s] q2 by (blast intro: quiet_trans)
        have q4: "quiet w w4" using quiet_clientUpdate[OF u] q3 by (blast intro: quiet_trans)
        from Reconcile_deleting[OF g' False dc True s u] q3 q4
        show ?thesis by (cases s; cases u) simp_all
      next
        case nofin: False
        from Reconcile_released[OF g' False dc nofin] q2 show ?thesis by simp
      qed
    qed
  qed
  then show ?thesis by (simp add: quiet_def)
qed

theorem Reconcile_empty_bundle_creates_nothing_witness:
  "bundles (ex_world ((ex_bundle ''b1'' ''u1'' (Some [PlacementLabel \<mapsto> ''p1'']) [''fin''] None)
               \<lparr>Spec := \<lparr>Manifests = []\<rparr>\<rparr>) [ex_decision] [] []) (''default'', ''b1'')
     = Some ((ex_bundle ''b1'' ''u1'' (Some [PlacementLabel \<mapsto> ''p1'']) [''fin''] None)
               \<lparr>Spec := \<lparr>Manifests = []\<rparr>\<rparr>)
   \<and> Manifests (Spec ((ex_bundle ''b1'' ''u1'' (Some [PlacementLabel \<mapsto> ''p1'']) [''fin''] None)
               \<lparr>Spec := \<lparr>Manifests = []\<rparr>\<rparr>)) = []
   \<and> works (snd (Reconcile ''fin'' Some (''default'', ''b1'')
        (ex_world ((ex_bundle ''b1'' ''u1'' (Some [PlacementLabel \<mapsto> ''p1'']) [''fin''] None)
               \<lparr>Spec := \<lparr>Manifests = []\<rparr>\<rparr>) [ex_decision] [] []))) = []"
  using Reconcile_empty_bundle_creates_nothing
    [of "ex_world ((ex_bundle ''b1'' ''u1'' (Some [PlacementLabel \<mapsto> ''p1'']) [''fin''] None)
               \<lparr>Spec := \<lparr>Manifests = []\<rparr>\<rparr>) [ex_decision] [] []"
        "(''default'', ''b1'')"
        "(ex_bundle ''b1'' ''u1'' (Some [PlacementLabel \<mapsto> ''p1'']) [''fin''] None)
               \<lparr>Spec := \<lparr>Manifests = []\<rparr>\<rparr>" "''fin''" Some]
  by (simp add: ex_world_def ex_bundle_def)

text \<open>
  C8. When the lister returns its list, \<^verbatim>\<open>getPlacementDecision(placementName, namespace)\<close>
  fails exactly when no PlacementDecision of the namespace carries the placement label with
  the value \<open>placementName\<close>, and the failure is the error "Could not find placement
  decision"; when decisions match, it returns the first of them in the order of the store.
\<close>

theorem getPlacementDecision_first_match:
  assumes "fst (nextFault w) = None"
  shows "((\<exists>e. fst (getPlacementDecision placementName ns w) = Inl e)
            \<longleftrightarrow> filter (\<lambda>d. inNamespace ns (pdNamespace d)
                             \<and> pdLabels d PlacementLabel = Some placementName)
                  (placementDecisions w) = [])
         \<and> fst (getPlacementDecision placementName ns w) =
             (case filter (\<lambda>d. inNamespace ns (pdNamespace d)
                               \<and> pdLabels d PlacementLabel = Some placementName)
                     (placementDecisions w) of
                [] \<Rightarrow> Inl (Errorf (''Could not find placement decision for placement ''
                                    @ placementName @ '' ''))
              | d # ds \<Rightarrow> Inr d)"
  using assms
  by (auto simp: getPlacementDecision_def listPlacementDecisions_def nextFault_def Let_def
      NewRequirement_def NewSelector_def Add_def Matches_def record_call_def klogInfof_def
      split: list.splits option.splits)

theorem getPlacementDecision_first_match_witness:
  "fst (nextFault (ex_world (ex_bundle ''b1'' ''u1'' None [] None)
          [ex_decision\<lparr>pdLabels := [PlacementLabel \<mapsto> ''p2'']\<rparr>, ex_decision,
           ex_decision\<lparr>pdName := ''p1-decision-2''\<rparr>] [] [])) = None
   \<and> fst (getPlacementDecision ''p1'' ''default''
        (ex_world (ex_bundle ''b1'' ''u1'' None [] None)
          [ex_decision\<lparr>pdLabels := [PlacementLabel \<mapsto> ''p2'']\<rparr>, ex_decision,
           ex_decision\<lparr>pdName := ''p1-decision-2''\<rparr>] [] [])) = Inr ex_decision"
  using getPlacementDecision_first_match
    [of "ex_world (ex_bundle ''b1'' ''u1'' None [] None)
          [ex_decision\<lparr>pdLabels := [PlacementLabel \<mapsto> ''p2'']\<rparr>, ex_decision,
           ex_decision\<lparr>pdName := ''p1-decision-2''\<rparr>] [] []" "''p1''" "''default''"]
  by (simp add: ex_world_def ex_decision_def nextFault_def inNamespace_def PlacementLabel_def)

text \<open>
  C9. On every path of \<^verbatim>\<open>Reconcile\<close> that reaches \<^verbatim>\<open>generateManifest\<close> the bundle's labels
  map holds the placement label and is not nil, so the write of the ownership label does
  not panic: no reconciliation ends in a panic, whatever the stores hold, whichever store
  calls fail and whatever \<open>IgnoreConflict\<close> returns. (On a bundle with a nil labels map
  \<^verbatim>\<open>generateManifest\<close> does panic, and so does \<^verbatim>\<open>scheduleBundle\<close> on a decision with a
  target: \<open>generateManifest_nil_labels_panics\<close>, \<open>scheduleBundle_nil_labels_panics\<close>.)
\<close>

theorem Reconcile_never_panics:
  "fst (Reconcile DeployFinalizer IgnoreConflict req w) \<noteq> Some Panic"
proof -
  obtain g w1 where g: "clientGet req w = (g, w1)" by (cases "clientGet req w")
  show ?thesis
  proof (cases g)
    case (Inl e)
    with g show ?thesis by (simp add: Reconcile_def IgnoreNotFound_def)
  next
    case (Inr bdl)
    obtain b h where dc: "DeepCopy (heap w1) bdl = (b, h)"
      by (cases "DeepCopy (heap w1) bdl")
    let ?w2 = "w1\<lparr>heap := h\<rparr>"
    show ?thesis
    proof (cases "IsZero (DeletionTimestamp bdl)")
      case True
      obtain u w3 where u: "clientUpdate (AddFinalizer b DeployFinalizer) ?w2 = (u, w3)"
        by (cases "clientUpdate (AddFinalizer b DeployFinalizer) ?w2")
      from g Inr dc True u reconcilePlacement_no_panic show ?thesis
        by (auto simp: Reconcile_def Let_def split: option.splits)
    next
      case False
      obtain s w3 where s: "deleteAllChildManifests b ?w2 = (s, w3)"
        by (cases "deleteAllChildManifests b ?w2")
      obtain u w4 where u: "clientUpdate (RemoveFinalizer b DeployFinalizer) w3 = (u, w4)"
        by (cases "clientUpdate (RemoveFinalizer b DeployFinalizer) w3")
      from g Inr dc False s u show ?thesis
        by (auto simp: Reconcile_def Let_def split: option.splits)
    qed
  qed
qed

theorem Reconcile_never_panics_witness:
  "fst (Reconcile ''fin'' Some (''default'', ''b1'')
         (ex_world (ex_bundle ''b1'' ''u1'' None [] None) [ex_decision] [] [])) \<noteq> Some Panic"
  using Reconcile_never_panics
    [of "''fin''" Some "(''default'', ''b1'')"
        "ex_world (ex_bundle ''b1'' ''u1'' None [] None) [ex_decision] [] []"]
  by simp

text \<open>
  C10. When deletion is not requested, the finalizer is absent and the update that adds it
  succeeds, \<^verbatim>\<open>Reconcile\<close> goes on in the same event: the stored Bundle has the finalizer, and
  the event is the rest of \<^verbatim>\<open>Reconcile\<close> (lines 114 to 135) run on the Bundle as it was
  read. For a Bundle with a placement label, the calls of the event are the read and the
  update of the Bundle followed by the list call for the placement decision; when that
  returns a decision with a first target and the manifest list is not empty, the read of
  the ManifestWork of that target follows.
\<close>

theorem Reconcile_continues_after_adding_finalizer:
  assumes "clientGet req w = (Inr bu, w1)"
    and "IsZero (DeletionTimestamp bu)"
    and "\<not> containsString (Finalizers bu) DeployFinalizer"
    and "DeepCopy (heap w1) bu = (b, h)"
    and "clientUpdate (AddFinalizer b DeployFinalizer) (w1\<lparr>heap := h\<rparr>) = (None, w3)"
  shows "Reconcile DeployFinalizer IgnoreConflict req w = reconcilePlacement bu req w3
         \<and> (\<exists>sb. bundles w3 (Namespace bu, Name bu) = Some sb
                \<and> DeployFinalizer \<in> set (Finalizers sb))
         \<and> (\<forall>p. getPlacementLabel (heap w1) bu = Some p \<longrightarrow>
               (\<exists>out evs. calls (snd (Reconcile DeployFinalizer IgnoreConflict req w)) =
                  calls w @ [(BGet req, None), (BUpdate (Namespace bu, Name bu), None),
                             (PDList (fst req) [(PlacementLabel, p)], out)] @ evs))
         \<and> (\<forall>p dec d ds. getPlacementLabel (heap w1) bu = Some p
                \<and> fst (getPlacementDecision p (fst req) w3) = Inr dec
                \<and> Manifests (Spec bu) \<noteq> [] \<and> pdDecisions dec = d # ds \<longrightarrow>
               (\<exists>out evs. calls (snd (Reconcile DeployFinalizer IgnoreConflict req w)) =
                  calls w @ [(BGet req, None), (BUpdate (Namespace bu, Name bu), None),
                             (PDList (fst req) [(PlacementLabel, p)], None),
                             (WGet (ClusterName d) (Name bu), out)] @ evs))"
proof -
  let ?R = "Reconcile DeployFinalizer IgnoreConflict req w"
  let ?b' = "AddFinalizer b DeployFinalizer"
  have nf: "DeployFinalizer \<notin> set (Finalizers bu)"
    using assms(3) by (simp add: containsString_def)
  have R: "?R = reconcilePlacement bu req w3"
    using Reconcile_pending[OF assms(1,2,4) nf assms(5), of IgnoreConflict] by simp
  note df = DeepCopy_fields[OF assms(4)]
  have key: "(Namespace ?b', Name ?b') = (Namespace bu, Name bu)"
    using df(1,2) by (simp add: AddFinalizer_def)
  have fin: "Finalizers ?b' = Finalizers bu @ [DeployFinalizer]"
    and dt: "DeletionTimestamp ?b' = DeletionTimestamp bu"
    using df(4,5) nf by (simp_all add: AddFinalizer_def)
  have stored: "\<exists>sb. bundles w3 (Namespace bu, Name bu) = Some sb
                  \<and> DeployFinalizer \<in> set (Finalizers sb)"
    using clientUpdate_None[OF assms(5)] key fin dt assms(2)
    by (simp add: encode_def)
  have c1: "calls w1 = calls w @ [(BGet req, None)]"
    using clientGet_frame(4)[OF assms(1)] by simp
  have c3: "calls w3 = calls w @ [(BGet req, None), (BUpdate (Namespace bu, Name bu), None)]"
    using clientUpdate_frame(4)[OF assms(5)] c1 key by simp
  have heap3: "\<exists>ext. heap w3 = heap w1 @ ext"
    using clientUpdate_frame(2)[OF assms(5)] DeepCopy_ext[OF assms(4)] by simp
  have lab: "getPlacementLabel (heap w3) bu = Some p"
    if "getPlacementLabel (heap w1) bu = Some p" for p
  proof -
    from getPlacementLabel_Some[OF that] obtain a where a: "Labels bu = Some a" ..
    from clientGet_Inr[OF assms(1)] obtain sb where "decode (heap w) sb = (bu, heap w1)"
      by blast
    from decode_labels(2)[OF this a] have "a < length (heap w1)" .
    with heap3 a that show ?thesis by (auto simp: getPlacementLabel_ext)
  qed
  have calls: "\<exists>out evs. calls (snd ?R) =
                 calls w @ [(BGet req, None), (BUpdate (Namespace bu, Name bu), None),
                            (PDList (fst req) [(PlacementLabel, p)], out)] @ evs
               \<and> (\<forall>dec d ds. fst (getPlacementDecision p (fst req) w3) = Inr dec
                      \<and> Manifests (Spec bu) \<noteq> [] \<and> pdDecisions dec = d # ds \<longrightarrow>
                      out = None
                      \<and> (\<exists>out' evs'. evs = (WGet (ClusterName d) (Name bu), out') # evs'))"
    if "getPlacementLabel (heap w1) bu = Some p" for p
    using reconcilePlacement_calls[OF lab[OF that], of req] R c3 by simp
  have part3: "\<exists>out evs. calls (snd ?R) =
                 calls w @ [(BGet req, None), (BUpdate (Namespace bu, Name bu), None),
                            (PDList (fst req) [(PlacementLabel, p)], out)] @ evs"
    if "getPlacementLabel (heap w1) bu = Some p" for p
    using calls[OF that] by blast
  have part4: "\<exists>out evs. calls (snd ?R) =
                 calls w @ [(BGet req, None), (BUpdate (Namespace bu, Name bu), None),
                            (PDList (fst req) [(PlacementLabel, p)], None),
                            (WGet (ClusterName d) (Name bu), out)] @ evs"
    if p1: "getPlacementLabel (heap w1) bu = Some p"
      and p2: "fst (getPlacementDecision p (fst req) w3) = Inr dec"
      and p3: "Manifests (Spec bu) \<noteq> []" and p4: "pdDecisions dec = d # ds" for p dec d ds
  proof -
    from calls[OF p1] obtain out evs where
      c: "calls (snd ?R) =
            calls w @ [(BGet req, None), (BUpdate (Namespace bu, Name bu), None),
                       (PDList (fst req) [(PlacementLabel, p)], out)] @ evs"
      and a: "\<forall>dec d ds. fst (getPlacementDecision p (fst req) w3) = Inr dec
                \<and> Manifests (Spec bu) \<noteq> [] \<and> pdDecisions dec = d # ds \<longrightarrow>
                out = None
                \<and> (\<exists>out' evs'. evs = (WGet (ClusterName d) (Name bu), out') # evs')"
      by (elim exE conjE)
    from a p2 p3 p4 have
      n: "out = None \<and> (\<exists>out' evs'. evs = (WGet (ClusterName d) (Name bu), out') # evs')"
      by (elim allE[of _ dec] allE[of _ d] allE[of _ ds]) simp
    from n obtain out' evs' where "evs = (WGet (ClusterName d) (Name bu), out') # evs'"
      by blast
    with c n show ?thesis by simp
  qed
  from R stored part3 part4 show ?thesis by blast
qed

theorem Reconcile_continues_after_adding_finalizer_witness:
  "clientGet (''default'', ''b1'') ex_pending
     = (Inr (ex_bundle ''b1'' ''u1'' (Some 0) [] None),
        snd (clientGet (''default'', ''b1'') ex_pending))
   \<and> IsZero (DeletionTimestamp (ex_bundle ''b1'' ''u1'' (Some (0::nat)) [] None))
   \<and> \<not> containsString (Finalizers (ex_bundle ''b1'' ''u1'' (Some (0::nat)) [] None)) ''fin''
   \<and> fst (clientUpdate
            (AddFinalizer
               (fst (DeepCopy (heap (snd (clientGet (''default'', ''b1'') ex_pending)))
                       (ex_bundle ''b1'' ''u1'' (Some 0) [] None))) ''fin'')
            (snd (clientGet (''default'', ''b1'') ex_pending)
               \<lparr>heap := snd (DeepCopy (heap (snd (clientGet (''default'', ''b1'') ex_pending)))
                               (ex_bundle ''b1'' ''u1'' (Some 0) [] None))\<rparr>)) = None
   \<and> (\<exists>out evs. calls (snd (Reconcile ''fin'' Some (''default'', ''b1'') ex_pending)) =
          [(BGet (''default'', ''b1''), None), (BUpdate (''default'', ''b1''), None),
           (PDList ''default'' [(PlacementLabel, ''p1'')], None),
           (WGet ''east'' ''b1'', out)] @ evs)"
proof -
  let ?req = "(''default'', ''b1'')"
  let ?bu = "ex_bundle ''b1'' ''u1'' (Some (0::nat)) [] None"
  let ?w1 = "snd (clientGet ?req ex_pending)"
  let ?b = "fst (DeepCopy (heap ?w1) ?bu)"
  let ?h = "snd (DeepCopy (heap ?w1) ?bu)"
  let ?w3 = "snd (clientUpdate (AddFinalizer ?b ''fin'') (?w1\<lparr>heap := ?h\<rparr>))"
  have w1: "?w1 = ex_pending\<lparr>heap := [[PlacementLabel \<mapsto> ''p1'']],
                              calls := [(BGet ?req, None)]\<rparr>"
    and g1: "fst (clientGet ?req ex_pending) = Inr ?bu"
    by (simp_all add: clientGet_def nextFault_def record_call_def decode_def allocMap_def
        ex_pending_def ex_world_def ex_bundle_def)
  have g: "clientGet ?req ex_pending = (Inr ?bu, ?w1)"
    using g1 by (simp add: prod_eq_iff)
  have z: "IsZero (DeletionTimestamp ?bu)" by (simp add: ex_bundle_def IsZero_def)
  have nf: "\<not> containsString (Finalizers ?bu) ''fin''"
    by (simp add: ex_bundle_def containsString_def)
  have dc: "DeepCopy (heap ?w1) ?bu = (?b, ?h)" by simp
  have w3: "fst (clientUpdate (AddFinalizer ?b ''fin'') (?w1\<lparr>heap := ?h\<rparr>)) = None"
    and pd3: "placementDecisions ?w3 = [ex_decision]" and f3: "faults ?w3 = []"
    unfolding w1
    by (simp_all add: clientUpdate_def nextFault_def record_call_def DeepCopy_def allocMap_def
        readMap_def AddFinalizer_def encode_def Let_def IsZero_def
        ex_pending_def ex_world_def ex_bundle_def)
  have u: "clientUpdate (AddFinalizer ?b ''fin'') (?w1\<lparr>heap := ?h\<rparr>) = (None, ?w3)"
    using w3 by (simp add: prod_eq_iff)
  have lab: "getPlacementLabel (heap ?w1) ?bu = Some ''p1''"
    unfolding w1 by (simp add: getPlacementLabel_def ex_bundle_def)
  have dec: "fst (getPlacementDecision ''p1'' (fst ?req) ?w3) = Inr ex_decision"
    by (simp add: getPlacementDecision_result nextFault_def pd3 f3 ex_decision_def
        inNamespace_def)
  have m: "Manifests (Spec ?bu) \<noteq> []" by (simp add: ex_bundle_def)
  have ds: "pdDecisions ex_decision
              = \<lparr>ClusterName = ''east'', Reason = []\<rparr> # [\<lparr>ClusterName = ''west'', Reason = []\<rparr>]"
    by (simp add: ex_decision_def)
  have key: "(Namespace ?bu, Name ?bu) = ?req" by (simp add: ex_bundle_def)
  have c0: "calls ex_pending = []" by (simp add: ex_pending_def ex_world_def)
  from Reconcile_continues_after_adding_finalizer[OF g z nf dc u, of Some]
  have "\<forall>p dec d ds. getPlacementLabel (heap ?w1) ?bu = Some p
          \<and> fst (getPlacementDecision p (fst ?req) ?w3) = Inr dec
          \<and> Manifests (Spec ?bu) \<noteq> [] \<and> pdDecisions dec = d # ds \<longrightarrow>
          (\<exists>out evs. calls (snd (Reconcile ''fin'' Some ?req ex_pending)) =
             calls ex_pending @ [(BGet ?req, None), (BUpdate (Namespace ?bu, Name ?bu), None),
                        (PDList (fst ?req) [(PlacementLabel, p)], None),
                        (WGet (ClusterName d) (Name ?bu), out)] @ evs)"
    by (elim conjE)
  with lab dec m ds have
    "\<exists>out evs. calls (snd (Reconcile ''fin'' Some ?req ex_pending)) =
        calls ex_pending @ [(BGet ?req, None), (BUpdate (Namespace ?bu, Name ?bu), None),
                   (PDList (fst ?req) [(PlacementLabel, ''p1'')], None),
                   (WGet (ClusterName \<lparr>ClusterName = ''east'', Reason = []\<rparr>) (Name ?bu), out)] @ evs"
    by blast
  then have "\<exists>out evs. calls (snd (Reconcile ''fin'' Some ?req ex_pending)) =
          [(BGet ?req, None), (BUpdate ?req, None),
           (PDList ''default'' [(PlacementLabel, ''p1'')], None),
           (WGet ''east'' ''b1'', out)] @ evs"
    using c0 key by (simp add: ex_bundle_def)
  with g z nf w3 show ?thesis by simp
qed

end
